theory Spec2Isabelle
  imports Main
begin

section \<open>The aiomysql dialect of gino: a shallow embedding\<close>

text \<open>
  The module \<^verbatim>\<open>gino/dialects/aiomysql.py\<close> is glue between the query layer and the
  database driver. Its pure parts (version parsing, name normalisation, argument escaping)
  are HOL functions on strings and lists; its effects are calls on collaborators (the
  driver's pool, connections and cursors, the clock, the row post-processor), recorded in
  order in a trace and answered by an environment.

  The strings the module itself writes or compares (statements, level names, messages)
  are values of \<^typ>\<open>string\<close>, one \<^typ>\<open>char\<close> per code point; the string the version parser
  reads is a list of code points. Exceptions are values of \<open>exn\<close>; a function that can
  raise returns \<open>exn + 'a\<close> with \<open>Inl\<close> for the exception.
\<close>

subsection \<open>Exceptions\<close>

datatype exn =
    TimeoutError
  | ArgumentError string
  | NotImplementedError
  | TypeError
  | ValueError
  | IndexError
  | AttributeError
  | OtherError string

subsection \<open>Python's \<^verbatim>\<open>int(str)\<close>, \<^verbatim>\<open>re.split\<close> and \<^verbatim>\<open>re.match\<close>\<close>

text \<open>
  In the version parser a Python \<^verbatim>\<open>str\<close> is the list of its code points, so every string
  can be written; \<open>cps\<close> gives the code points of a literal. The characters the parser
  names are \<open>.\<close> (46), \<open>-\<close> (45), \<open>+\<close> (43), \<open>_\<close> (95), the newline (10) and the digits
  \<open>0\<close> to \<open>9\<close> (48 to 57).
\<close>

type_synonym ustr = "nat list"

definition cps :: "string \<Rightarrow> ustr" where
  "cps s = map of_char s"

text \<open>
  What \<^verbatim>\<open>int\<close> takes from the interpreter: the Unicode tables of blanks and of decimal
  digits, asked for code points from 128 on, and the limit on the number of digits of an
  integer string, \<^verbatim>\<open>sys.get_int_max_str_digits()\<close> (4300 unless set otherwise; 0 when the
  limit is switched off or the interpreter has none).
\<close>

record runtime =
  unicode_space :: "nat \<Rightarrow> bool"
  unicode_decimal :: "nat \<Rightarrow> nat option"
  int_max_str_digits :: nat

text \<open>
  \<^verbatim>\<open>int(n)\<close> on a string: blanks around it are skipped, one sign is allowed, then decimal
  digits with single underscores between digits; anything else is a \<^verbatim>\<open>ValueError\<close>. So
  is a literal of more than 640 digits when the limit is on and the literal has more
  digits than the limit. Below 128 the blanks are the six listed; from 128 on a code
  point is a blank if the table says so, and else a digit if the table gives its value.
\<close>

definition is_space :: "runtime \<Rightarrow> nat \<Rightarrow> bool" where
  "is_space rt c = (c \<in> set [9, 10, 11, 12, 13, 32] \<or> (128 \<le> c \<and> unicode_space rt c))"

definition digit_of :: "runtime \<Rightarrow> nat \<Rightarrow> nat option" where
  "digit_of rt c =
     (if 48 \<le> c \<and> c \<le> 57 then Some (c - 48)
      else if 128 \<le> c \<and> \<not> unicode_space rt c then unicode_decimal rt c
      else None)"

definition is_digit :: "runtime \<Rightarrow> nat \<Rightarrow> bool" where
  "is_digit rt c = (digit_of rt c \<noteq> None)"

definition digit_val :: "runtime \<Rightarrow> nat \<Rightarrow> int" where
  "digit_val rt c = (case digit_of rt c of Some v \<Rightarrow> int v | None \<Rightarrow> 0)"

definition strip :: "runtime \<Rightarrow> ustr \<Rightarrow> ustr" where
  "strip rt s = rev (dropWhile (is_space rt) (rev (dropWhile (is_space rt) s)))"

text \<open>
  The digits of a literal, underscores removed; \<open>None\<close> when the literal is malformed.
  The flag says whether the previous character was a digit: an underscore is accepted
  only after a digit and only when a digit follows.
\<close>

fun digits_of :: "runtime \<Rightarrow> bool \<Rightarrow> ustr \<Rightarrow> ustr option" where
  "digits_of rt prev [] = (if prev then Some [] else None)"
| "digits_of rt prev (c # cs) =
     (if is_digit rt c then map_option (\<lambda>ds. c # ds) (digits_of rt True cs)
      else if c = 95 \<and> prev \<and> cs \<noteq> [] \<and> is_digit rt (hd cs) then digits_of rt False cs
      else None)"

definition decimal :: "runtime \<Rightarrow> ustr \<Rightarrow> int" where
  "decimal rt ds = foldl (\<lambda>a c. 10 * a + digit_val rt c) 0 ds"

definition over_limit :: "runtime \<Rightarrow> nat \<Rightarrow> bool" where
  "over_limit rt digits =
     (640 < digits \<and> 0 < int_max_str_digits rt \<and> int_max_str_digits rt < digits)"

definition py_int :: "runtime \<Rightarrow> ustr \<Rightarrow> exn + int" where
  "py_int rt n =
     (let s = strip rt n;
          (neg, body) = (case s of
                           c # cs \<Rightarrow> if c = 45 then (True, cs)
                                     else if c = 43 then (False, cs)
                                     else (False, s)
                         | [] \<Rightarrow> (False, s))
      in case digits_of rt False body of
           None \<Rightarrow> Inl ValueError
         | Some ds \<Rightarrow>
             if over_limit rt (length ds) then Inl ValueError
             else Inr (if neg then - decimal rt ds else decimal rt ds))"

text \<open>\<^verbatim>\<open>re.compile(r"[.\-]").split(val)\<close>: the pieces between the separators, in order;
  there is always at least one piece.\<close>

definition is_sep :: "nat \<Rightarrow> bool" where
  "is_sep c = (c = 46 \<or> c = 45)"

fun re_split :: "ustr \<Rightarrow> ustr list" where
  "re_split [] = [[]]"
| "re_split (c # cs) =
     (if is_sep c then [] # re_split cs
      else (case re_split cs of t # ts \<Rightarrow> (c # t) # ts | [] \<Rightarrow> [[c]]))"

text \<open>
  \<^verbatim>\<open>re.match(r"(.*)(MariaDB)(.*)", n)\<close>. The match starts at the beginning of \<open>n\<close>; a dot
  matches any character but a newline, so the three groups lie in the first line of \<open>n\<close>;
  the first group is greedy, so the marker matched is the last one of that line.
  \<open>last_marker\<close> returns the text before and after the last marker of its argument.
\<close>

definition marker :: ustr where
  "marker = cps ''MariaDB''"

definition first_line :: "ustr \<Rightarrow> ustr" where
  "first_line n = takeWhile (\<lambda>c. c \<noteq> 10) n"

fun last_marker :: "ustr \<Rightarrow> (ustr \<times> ustr) option" where
  "last_marker [] = None"
| "last_marker (c # cs) =
     (case last_marker cs of
        Some (a, b) \<Rightarrow> Some (c # a, b)
      | None \<Rightarrow>
          if take (length marker) (c # cs) = marker
          then Some ([], drop (length marker) (c # cs))
          else None)"

definition re_match_mariadb :: "ustr \<Rightarrow> ustr list option" where
  "re_match_mariadb n =
     (case last_marker (first_line n) of
        None \<Rightarrow> None
      | Some (a, b) \<Rightarrow> Some [a, marker, b])"

subsection \<open>\<^verbatim>\<open>AiomysqlDialect._parse_server_version\<close>\<close>

datatype ver = VInt int | VStr ustr

text \<open>The body of the loop, for one piece \<open>n\<close>, on the list \<open>version\<close> built so far.\<close>

definition parse_step :: "runtime \<Rightarrow> ver list \<Rightarrow> ustr \<Rightarrow> ver list" where
  "parse_step rt version n =
     (case py_int rt n of
        Inr i \<Rightarrow> version @ [VInt i]
      | Inl e \<Rightarrow>
          (case re_match_mariadb n of
             Some groups \<Rightarrow> version @ map VStr (filter (\<lambda>g. g \<noteq> []) groups)
           | None \<Rightarrow> version @ [VStr n]))"

fun parse_loop :: "runtime \<Rightarrow> ver list \<Rightarrow> ustr list \<Rightarrow> ver list" where
  "parse_loop rt version [] = version"
| "parse_loop rt version (n # ns) = parse_loop rt (parse_step rt version n) ns"

definition parse_server_version :: "runtime \<Rightarrow> ustr \<Rightarrow> ver list" where
  "parse_server_version rt val = parse_loop rt [] (re_split val)"

subsection \<open>Python values\<close>

text \<open>
  The values that cross the boundary to the driver: query arguments, column values, rows.
  A dict is the list of its items in iteration order (its keys pairwise distinct).
\<close>

datatype pyval =
    PNone
  | PBool bool
  | PInt int
  | PStr string
  | PBytes string
  | PTuple "pyval list"
  | PList "pyval list"
  | PDict "(pyval \<times> pyval) list"

text \<open>Truth value testing, as \<^verbatim>\<open>not row\<close> applies it.\<close>

fun py_truthy :: "pyval \<Rightarrow> bool" where
  "py_truthy PNone = False"
| "py_truthy (PBool b) = b"
| "py_truthy (PInt i) = (i \<noteq> 0)"
| "py_truthy (PStr s) = (s \<noteq> [])"
| "py_truthy (PBytes s) = (s \<noteq> [])"
| "py_truthy (PTuple xs) = (xs \<noteq> [])"
| "py_truthy (PList xs) = (xs \<noteq> [])"
| "py_truthy (PDict kvs) = (kvs \<noteq> [])"

text \<open>\<^verbatim>\<open>xs[0]\<close> on a list.\<close>

definition py_first :: "'a list \<Rightarrow> exn + 'a" where
  "py_first xs = (case xs of [] \<Rightarrow> Inl IndexError | x # _ \<Rightarrow> Inr x)"

text \<open>\<^verbatim>\<open>s.replace(a, b)\<close> for one-character \<open>a\<close> and \<open>b\<close>, and \<^verbatim>\<open>sep.join(xs)\<close>.\<close>

definition py_replace :: "char \<Rightarrow> char \<Rightarrow> string \<Rightarrow> string" where
  "py_replace a b s = map (\<lambda>c. if c = a then b else c) s"

fun py_join :: "string \<Rightarrow> string list \<Rightarrow> string" where
  "py_join sep [] = []"
| "py_join sep [x] = x"
| "py_join sep (x # y # ys) = x @ sep @ py_join sep (y # ys)"

text \<open>
  \<^verbatim>\<open>version >= (5, 7, 20)\<close>: tuples compare at the first position where they differ, else
  by length; comparing a string component with an integer raises \<^verbatim>\<open>TypeError\<close>.
\<close>

fun tuple_ge_ints :: "ver list \<Rightarrow> int list \<Rightarrow> exn + bool" where
  "tuple_ge_ints [] [] = Inr True"
| "tuple_ge_ints [] (y # ys) = Inr False"
| "tuple_ge_ints (x # xs) [] = Inr True"
| "tuple_ge_ints (x # xs) (y # ys) =
     (case x of
        VInt a \<Rightarrow> if a = y then tuple_ge_ints xs ys else Inr (y \<le> a)
      | VStr s \<Rightarrow> Inl TypeError)"

subsection \<open>Collaborators: the trace of calls and the environment's replies\<close>

text \<open>
  Connections, cursors and prepared statements of the driver are opaque objects, known by
  a number. Every call the module makes on a collaborator is an event; the trace is the
  list of events so far, oldest first. A timeout is \<open>None\<close> (unbounded) or a duration of
  type \<open>'t\<close> (Python's numbers; only the operations the code applies to them are used).
\<close>

type_synonym conn = nat
type_synonym cursor = nat
type_synonym prepared = nat

datatype 't event =
    PoolAcquire
  | PoolRelease conn
  | ConnBegin conn
  | ConnCommit conn
  | ConnRollback conn
  | ConnCursor conn
  | CursorExecute cursor string
  | CursorFetchone cursor
  | CursorClose cursor
  | Warn string
  | Monotonic
  | Acquire "'t option"
  | ConnPrepare conn string "'t option"
  | GetAttributes prepared
  | ConnQuery conn string
  | Fetchrow cursor "'t option"
  | ProcessRows "pyval list"

record query_result =
  description :: pyval
  affected_rows :: pyval
  rows :: pyval

text \<open>
  The environment answers each call. A reply may depend on everything that happened
  before: it is a function of the trace, whose last event is the call being answered.
  \<open>pool_acquire_reply\<close> also says how long the driver's pool takes to answer, \<open>None\<close>
  when it never does. The last five fields are pure operations of the driver and of
  Python: \<^verbatim>\<open>conn.escape\<close>, \<^verbatim>\<open>bytes.decode\<close>, \<^verbatim>\<open>str.upper\<close>, \<^verbatim>\<open>str % args\<close>, and what \<^verbatim>\<open>int\<close>
  takes from the interpreter.
\<close>

record 't env =
  pool_acquire_reply :: "'t event list \<Rightarrow> ('t \<times> (exn + conn)) option"
  unit_reply :: "'t event list \<Rightarrow> exn + unit"
  conn_reply :: "'t event list \<Rightarrow> exn + conn"
  cursor_reply :: "'t event list \<Rightarrow> exn + cursor"
  fetchone_reply :: "'t event list \<Rightarrow> exn + pyval list option"
  clock_reply :: "'t event list \<Rightarrow> 't"
  prepare_reply :: "'t event list \<Rightarrow> exn + prepared"
  attributes_reply :: "'t event list \<Rightarrow> exn + pyval"
  query_reply :: "'t event list \<Rightarrow> exn + query_result"
  fetchrow_reply :: "'t event list \<Rightarrow> exn + pyval"
  process_rows_reply :: "'t event list \<Rightarrow> exn + pyval list"
  conn_escape :: "conn \<Rightarrow> pyval \<Rightarrow> exn + pyval"
  bytes_decode :: "string \<Rightarrow> exn + string"
  str_upper :: "string \<Rightarrow> string"
  str_format :: "string \<Rightarrow> pyval \<Rightarrow> exn + string"
  runtime :: runtime

text \<open>A coroutine: from the trace so far to its outcome and the trace after it.\<close>

type_synonym ('t, 'a) io = "'t event list \<Rightarrow> (exn + 'a) \<times> 't event list"

definition return_io :: "'a \<Rightarrow> ('t, 'a) io" where
  "return_io x tr = (Inr x, tr)"

definition raise_io :: "exn \<Rightarrow> ('t, 'a) io" where
  "raise_io e tr = (Inl e, tr)"

definition lift_io :: "exn + 'a \<Rightarrow> ('t, 'a) io" where
  "lift_io r tr = (r, tr)"

definition then_io :: "('t, 'a) io \<Rightarrow> ('a \<Rightarrow> ('t, 'b) io) \<Rightarrow> ('t, 'b) io" where
  "then_io m f tr = (case m tr of (Inl e, tr') \<Rightarrow> (Inl e, tr') | (Inr x, tr') \<Rightarrow> f x tr')"

definition call_io :: "('t event list \<Rightarrow> exn + 'a) \<Rightarrow> 't event \<Rightarrow> ('t, 'a) io" where
  "call_io reply ev tr = (reply (tr @ [ev]), tr @ [ev])"

definition monotonic :: "'t env \<Rightarrow> ('t, 't) io" where
  "monotonic d tr = (Inr (clock_reply d (tr @ [Monotonic])), tr @ [Monotonic])"

subsection \<open>\<^verbatim>\<open>AiomysqlCursor\<close>\<close>

text \<open>The sentinel \<^verbatim>\<open>base.DEFAULT\<close> of the \<^verbatim>\<open>timeout\<close> keyword, or a timeout given.\<close>

datatype 't timeout_arg = DEFAULT | Timeout "'t option"

record 't execution_context =
  ctx_timeout :: "'t option"
  ctx_statement :: string

record 't aiomysql_cursor =
  cur_context :: "'t execution_context"
  cur_cursor :: cursor

definition AiomysqlCursor_next ::
  "'t env \<Rightarrow> 't aiomysql_cursor \<Rightarrow> 't timeout_arg \<Rightarrow> ('t, pyval) io" where
  "AiomysqlCursor_next d self timeout =
     (let timeout = (case timeout of
                       DEFAULT \<Rightarrow> ctx_timeout (cur_context self)
                     | Timeout t \<Rightarrow> t)
      in then_io (call_io (fetchrow_reply d) (Fetchrow (cur_cursor self) timeout)) (\<lambda>row.
           if \<not> py_truthy row then return_io PNone
           else then_io (call_io (process_rows_reply d) (ProcessRows [row])) (\<lambda>rows.
                  lift_io (py_first rows))))"

subsection \<open>\<^verbatim>\<open>DBAPICursor\<close>\<close>

record dbapi_cursor =
  cursor_description :: pyval
  status :: pyval


text \<open>
  \<^verbatim>\<open>_escape_args\<close>. The generator inside \<^verbatim>\<open>tuple(...)\<close> and \<^verbatim>\<open>dict(...)\<close> escapes the
  elements from left to right and stops at the first exception.
\<close>

fun escape_each :: "(pyval \<Rightarrow> exn + pyval) \<Rightarrow> pyval list \<Rightarrow> exn + pyval list" where
  "escape_each esc [] = Inr []"
| "escape_each esc (arg # args) =
     (case esc arg of
        Inl e \<Rightarrow> Inl e
      | Inr a \<Rightarrow> (case escape_each esc args of Inl e \<Rightarrow> Inl e | Inr as \<Rightarrow> Inr (a # as)))"

fun escape_items ::
  "(pyval \<Rightarrow> exn + pyval) \<Rightarrow> (pyval \<times> pyval) list \<Rightarrow> exn + (pyval \<times> pyval) list" where
  "escape_items esc [] = Inr []"
| "escape_items esc ((key, val) # items) =
     (case esc val of
        Inl e \<Rightarrow> Inl e
      | Inr v \<Rightarrow>
          (case escape_items esc items of Inl e \<Rightarrow> Inl e | Inr kvs \<Rightarrow> Inr ((key, v) # kvs)))"

definition escape_args :: "'t env \<Rightarrow> pyval \<Rightarrow> conn \<Rightarrow> exn + pyval" where
  "escape_args d args conn =
     (case args of
        PTuple xs \<Rightarrow> map_sum id PTuple (escape_each (conn_escape d conn) xs)
      | PList xs \<Rightarrow> map_sum id PTuple (escape_each (conn_escape d conn) xs)
      | PDict kvs \<Rightarrow> map_sum id PDict (escape_items (conn_escape d conn) kvs)
      | _ \<Rightarrow> conn_escape d conn args)"

text \<open>
  The common beginning of \<^verbatim>\<open>prepare\<close> and \<^verbatim>\<open>async_execute\<close>: acquire the connection and,
  when the timeout is bounded, take the time the acquisition took off the timeout.
\<close>

definition acquire_timed :: "('t::minus) env \<Rightarrow> 't option \<Rightarrow> ('t, conn \<times> 't option) io" where
  "acquire_timed d timeout =
     (case timeout of
        None \<Rightarrow>
          then_io (call_io (conn_reply d) (Acquire None)) (\<lambda>conn. return_io (conn, None))
      | Some t \<Rightarrow>
          then_io (monotonic d) (\<lambda>before.
          then_io (call_io (conn_reply d) (Acquire (Some t))) (\<lambda>conn.
          then_io (monotonic d) (\<lambda>after.
          return_io (conn, Some (t - (after - before)))))))"



text \<open>\<^verbatim>\<open>async_execute\<close>; \<open>args\<close> is \<open>None\<close> for Python's \<^verbatim>\<open>None\<close>.\<close>

definition async_execute ::
  "('t::minus) env \<Rightarrow> dbapi_cursor \<Rightarrow> string \<Rightarrow> 't option \<Rightarrow> pyval option \<Rightarrow>
   ('t, pyval \<times> dbapi_cursor) io" where
  "async_execute d self query timeout args =
     then_io (acquire_timed d timeout) (\<lambda>(conn, timeout).
     then_io (case args of
                None \<Rightarrow> return_io query
              | Some a \<Rightarrow>
                  lift_io (case escape_args d a conn of
                             Inl e \<Rightarrow> Inl e
                           | Inr escaped \<Rightarrow> str_format d query escaped)) (\<lambda>query.
     then_io (call_io (query_reply d) (ConnQuery conn query)) (\<lambda>result.
     return_io (rows result,
                self\<lparr>cursor_description := description result,
                     status := affected_rows result\<rparr>))))"

subsection \<open>\<^verbatim>\<open>Pool\<close>\<close>

text \<open>
  \<^verbatim>\<open>asyncio.wait_for(fut, timeout)\<close> for a bounded \<open>timeout\<close>, on a fresh coroutine that
  needs the time \<open>d\<close> to return \<open>r\<close> (\<open>None\<close>: it never returns). A timeout that is not
  positive raises at once; otherwise the result is returned if it is there when the
  timeout fires.
\<close>

definition wait_for :: "(('t::{zero,ord}) \<times> (exn + 'a)) option \<Rightarrow> 't \<Rightarrow> exn + 'a" where
  "wait_for fut timeout =
     (if timeout \<le> 0 then Inl TimeoutError
      else case fut of
             None \<Rightarrow> Inl TimeoutError
           | Some (d, r) \<Rightarrow> if d \<le> timeout then r else Inl TimeoutError)"

record 't pool =
  conn_init :: "(conn \<Rightarrow> ('t, unit) io) option"

definition Pool_release :: "'t env \<Rightarrow> 't pool \<Rightarrow> conn \<Rightarrow> ('t, unit) io" where
  "Pool_release d self conn = call_io (unit_reply d) (PoolRelease conn)"

text \<open>
  The first step of \<^verbatim>\<open>Pool.acquire\<close>: \<open>tr1\<close> is the trace with the call on the driver's
  pool. Without a timeout the call is awaited as it is, so there is an outcome only if
  the pool answers (\<open>None\<close>: it never does); with a timeout it is awaited through
  \<^verbatim>\<open>asyncio.wait_for\<close>.
\<close>

definition pool_wait ::
  "('t::{zero,ord}) env \<Rightarrow> 't option \<Rightarrow> 't event list \<Rightarrow> (exn + conn) option" where
  "pool_wait d timeout tr1 =
     (case timeout of
        None \<Rightarrow> map_option snd (pool_acquire_reply d tr1)
      | Some t \<Rightarrow> Some (wait_for (pool_acquire_reply d tr1) t))"

text \<open>\<^verbatim>\<open>Pool.acquire\<close>; the result is \<open>None\<close> when the call never returns.\<close>

definition Pool_acquire ::
  "('t::{zero,ord}) env \<Rightarrow> 't pool \<Rightarrow> 't option \<Rightarrow> 't event list \<Rightarrow>
   ((exn + conn) \<times> 't event list) option" where
  "Pool_acquire d self timeout tr =
     (let tr1 = tr @ [PoolAcquire]
      in case pool_wait d timeout tr1 of
           None \<Rightarrow> None
         | Some (Inl e) \<Rightarrow> Some (Inl e, tr1)
         | Some (Inr conn) \<Rightarrow>
             (case conn_init self of
                None \<Rightarrow> Some (Inr conn, tr1)
              | Some init \<Rightarrow>
                  (case init conn tr1 of
                     (Inr u, tr2) \<Rightarrow> Some (Inr conn, tr2)
                   | (Inl e, tr2) \<Rightarrow>
                       (case Pool_release d self conn tr2 of
                          (Inl e', tr3) \<Rightarrow> Some (Inl e', tr3)
                        | (Inr u, tr3) \<Rightarrow> Some (Inl e, tr3)))))"

subsection \<open>\<^verbatim>\<open>Transaction\<close>\<close>

record 't transaction =
  tx_conn :: conn
  tx_set_isolation :: "(conn \<Rightarrow> ('t, unit) io) option"

definition Transaction_begin :: "'t env \<Rightarrow> 't transaction \<Rightarrow> ('t, unit) io" where
  "Transaction_begin d self =
     then_io (call_io (unit_reply d) (ConnBegin (tx_conn self))) (\<lambda>u.
       case tx_set_isolation self of
         None \<Rightarrow> return_io ()
       | Some set_isolation \<Rightarrow> set_isolation (tx_conn self))"

definition Transaction_commit :: "'t env \<Rightarrow> 't transaction \<Rightarrow> ('t, unit) io" where
  "Transaction_commit d self = call_io (unit_reply d) (ConnCommit (tx_conn self))"

definition Transaction_rollback :: "'t env \<Rightarrow> 't transaction \<Rightarrow> ('t, unit) io" where
  "Transaction_rollback d self = call_io (unit_reply d) (ConnRollback (tx_conn self))"

subsection \<open>\<^verbatim>\<open>AiomysqlDialect\<close>\<close>

text \<open>
  What the methods read of the dialect object. \<open>dialect_name\<close>, \<open>isolation_lookup\<close>
  (the set \<^verbatim>\<open>_isolation_lookup\<close>, as the list of its elements in iteration order) and
  \<open>is_mysql\<close> (the property \<^verbatim>\<open>_is_mysql\<close>, a function of the server version) come from
  the base class \<^verbatim>\<open>MySQLDialect\<close>.
\<close>

record dialect =
  dialect_name :: string
  isolation_lookup :: "string list"
  isolation_level :: "string option"
  server_version_info :: "ver list option"
  is_mysql :: "ver list option \<Rightarrow> bool"

definition invalid_level_message :: "dialect \<Rightarrow> string \<Rightarrow> string" where
  "invalid_level_message self level =
     ''Invalid value '' @ [CHR 0x27] @ level @ [CHR 0x27] @
     '' for isolation_level. Valid isolation levels for '' @ dialect_name self @
     '' are '' @ py_join '', '' (isolation_lookup self)"

text \<open>\<^verbatim>\<open>_set_isolation_level\<close>, the method behind \<^verbatim>\<open>set_isolation_level\<close>.\<close>

definition priv_set_isolation_level ::
  "'t env \<Rightarrow> dialect \<Rightarrow> conn \<Rightarrow> string \<Rightarrow> ('t, unit) io" where
  "priv_set_isolation_level d self connection level =
     (if level \<notin> set (isolation_lookup self)
      then raise_io (ArgumentError (invalid_level_message self level))
      else
        then_io (call_io (cursor_reply d) (ConnCursor connection)) (\<lambda>cursor.
        then_io (call_io (unit_reply d)
                   (CursorExecute cursor (''SET SESSION TRANSACTION ISOLATION LEVEL '' @ level)))
          (\<lambda>u.
        then_io (call_io (unit_reply d) (CursorExecute cursor ''COMMIT'')) (\<lambda>u.
        call_io (unit_reply d) (CursorClose cursor)))))"

definition set_isolation_level ::
  "'t env \<Rightarrow> dialect \<Rightarrow> conn \<Rightarrow> string \<Rightarrow> ('t, unit) io" where
  "set_isolation_level d self connection level =
     priv_set_isolation_level d self connection (py_replace CHR ''_'' CHR '' '' level)"

text \<open>\<^verbatim>\<open>transaction\<close>: \<open>kwargs\<close> is the dict of keyword arguments.\<close>

definition transaction ::
  "'t env \<Rightarrow> dialect \<Rightarrow> conn \<Rightarrow> (string \<rightharpoonup> string) \<Rightarrow> 't transaction" where
  "transaction d self raw_conn kwargs =
     \<lparr>tx_conn = raw_conn,
      tx_set_isolation =
        (case kwargs ''isolation'' of
           None \<Rightarrow> None
         | Some level \<Rightarrow> Some (\<lambda>conn. set_isolation_level d self conn level))\<rparr>"

definition on_connect :: "'t env \<Rightarrow> dialect \<Rightarrow> (conn \<Rightarrow> ('t, unit) io) option" where
  "on_connect d self =
     (case isolation_level self of
        Some level \<Rightarrow> Some (\<lambda>conn. set_isolation_level d self conn level)
      | None \<Rightarrow> None)"

text \<open>\<^verbatim>\<open>row[0]\<close> on what \<^verbatim>\<open>fetchone\<close> returned: a tuple of column values, or \<^verbatim>\<open>None\<close>.\<close>

definition row_first :: "pyval list option \<Rightarrow> exn + pyval" where
  "row_first row = (case row of None \<Rightarrow> Inl TypeError | Some r \<Rightarrow> py_first r)"

text \<open>\<^verbatim>\<open>if isinstance(val, bytes): val = val.decode()\<close>.\<close>

definition decode_if_bytes :: "'t env \<Rightarrow> pyval \<Rightarrow> exn + pyval" where
  "decode_if_bytes d val =
     (case val of PBytes b \<Rightarrow> map_sum id PStr (bytes_decode d b) | _ \<Rightarrow> Inr val)"

definition get_server_version_info :: "'t env \<Rightarrow> dialect \<Rightarrow> conn \<Rightarrow> ('t, ver list) io" where
  "get_server_version_info d self connection =
     then_io (call_io (cursor_reply d) (ConnCursor connection)) (\<lambda>cursor.
     then_io (call_io (unit_reply d) (CursorExecute cursor ''SELECT VERSION()'')) (\<lambda>u.
     then_io (call_io (fetchone_reply d) (CursorFetchone cursor)) (\<lambda>row.
     then_io (lift_io (row_first row)) (\<lambda>val.
     then_io (call_io (unit_reply d) (CursorClose cursor)) (\<lambda>u.
     then_io (lift_io (decode_if_bytes d val)) (\<lambda>val.
     lift_io (case val of
                PStr s \<Rightarrow> Inr (parse_server_version (runtime d) (cps s))
              | _ \<Rightarrow> Inl TypeError)))))))"

text \<open>
  \<^verbatim>\<open>get_isolation_level\<close>, after the server version is known: from
  \<^verbatim>\<open>cursor = await connection.cursor()\<close> on.
\<close>

definition read_isolation_level :: "'t env \<Rightarrow> dialect \<Rightarrow> conn \<Rightarrow> ('t, string) io" where
  "read_isolation_level d self connection =
     then_io (call_io (cursor_reply d) (ConnCursor connection)) (\<lambda>cursor.
     then_io (lift_io (if is_mysql self (server_version_info self)
                       then (case server_version_info self of
                               None \<Rightarrow> Inl TypeError
                             | Some v \<Rightarrow> tuple_ge_ints v [5, 7, 20])
                       else Inr False)) (\<lambda>recent.
     then_io (call_io (unit_reply d)
                (CursorExecute cursor
                   (if recent then ''SELECT @@transaction_isolation''
                    else ''SELECT @@tx_isolation''))) (\<lambda>u.
     then_io (call_io (fetchone_reply d) (CursorFetchone cursor)) (\<lambda>row.
     then_io (case row of
                None \<Rightarrow>
                  then_io (call_io (\<lambda>tr. Inr ())
                             (Warn (''Could not retrieve transaction isolation level '' @
                                    ''for MySQL connection.'')))
                    (\<lambda>u. raise_io NotImplementedError)
              | Some r \<Rightarrow> lift_io (py_first r)) (\<lambda>val.
     then_io (call_io (unit_reply d) (CursorClose cursor)) (\<lambda>u.
     then_io (lift_io (decode_if_bytes d val)) (\<lambda>val.
     lift_io (case val of
                PStr s \<Rightarrow> Inr (py_replace CHR ''-'' CHR '' '' (str_upper d s))
              | _ \<Rightarrow> Inl AttributeError))))))))"

text \<open>
  \<^verbatim>\<open>get_isolation_level\<close>. The method may store the server version in the dialect, so
  the dialect after the call is returned with the outcome, also when the call raises.
\<close>

definition get_isolation_level ::
  "'t env \<Rightarrow> dialect \<Rightarrow> conn \<Rightarrow> 't event list \<Rightarrow>
   ((exn + string) \<times> dialect) \<times> 't event list" where
  "get_isolation_level d self connection tr =
     (case server_version_info self of
        None \<Rightarrow>
          (case get_server_version_info d self connection tr of
             (Inl e, tr1) \<Rightarrow> ((Inl e, self), tr1)
           | (Inr v, tr1) \<Rightarrow>
               (let self1 = self\<lparr>server_version_info := Some v\<rparr>;
                    (r, tr2) = read_isolation_level d self1 connection tr1
                in ((r, self1), tr2)))
      | Some v \<Rightarrow>
          (let (r, tr2) = read_isolation_level d self connection tr
           in ((r, self), tr2)))"

text \<open>A caller that asks for the isolation level of each connection of a list in turn,
  whatever each call returns or raises.\<close>

fun get_isolation_levels ::
  "'t env \<Rightarrow> dialect \<Rightarrow> conn list \<Rightarrow> 't event list \<Rightarrow> dialect \<times> 't event list" where
  "get_isolation_levels d self [] tr = (self, tr)"
| "get_isolation_levels d self (c # cs) tr =
     (case get_isolation_level d self c tr of
        ((r, self1), tr1) \<Rightarrow> get_isolation_levels d self1 cs tr1)"

definition is_version_query :: "'t event \<Rightarrow> bool" where
  "is_version_query ev =
     (case ev of CursorExecute k q \<Rightarrow> q = ''SELECT VERSION()'' | _ \<Rightarrow> False)"

text \<open>
  Vocabulary for the properties of the version query: a coroutine only adds events at the end
  of the trace, and at most \<open>n\<close> of the events it adds are version queries.
\<close>

definition version_queries_within :: "nat \<Rightarrow> ('t, 'a) io \<Rightarrow> bool" where
  "version_queries_within n m =
     (\<forall>tr. \<exists>evs. snd (m tr) = tr @ evs \<and> length (filter is_version_query evs) \<le> n)"

subsection \<open>A concrete environment and dialect\<close>

text \<open>
  An environment to run the definitions in. Time is counted in whole seconds. The pool
  hands out connection 1 after two seconds; every call succeeds; the clock reads 0 at
  first and 3 from the second reading on; a version query and an isolation query both
  read the row \<open>(b"8.0.31",)\<close>; a streaming cursor yields the row \<open>(1,)\<close> on the first
  fetch and an empty row afterwards; rows are post-processed to themselves; only strings
  can be escaped.
\<close>

text \<open>
  An interpreter with the default limit of 4300 digits. Of the Unicode tables it knows
  the blanks U+0085 and U+00A0 and the Arabic-Indic digits U+0660 to U+0669.
\<close>

definition demo_runtime :: runtime where
  "demo_runtime =
     \<lparr>unicode_space = (\<lambda>c. c = 133 \<or> c = 160),
      unicode_decimal = (\<lambda>c. if 1632 \<le> c \<and> c \<le> 1641 then Some (c - 1632) else None),
      int_max_str_digits = 4300\<rparr>"

definition demo_env :: "int env" where
  "demo_env =
     \<lparr>pool_acquire_reply = (\<lambda>tr. Some (2, Inr 1)),
      unit_reply = (\<lambda>tr. Inr ()),
      conn_reply = (\<lambda>tr. Inr 1),
      cursor_reply = (\<lambda>tr. Inr 7),
      fetchone_reply = (\<lambda>tr. Inr (Some [PBytes ''8.0.31''])),
      clock_reply = (\<lambda>tr. if length tr \<le> 1 then 0 else 3),
      prepare_reply = (\<lambda>tr. Inr 5),
      attributes_reply = (\<lambda>tr. Inr (PList [])),
      query_reply = (\<lambda>tr. Inr \<lparr>description = PNone, affected_rows = PInt 0,
                                 rows = PList []\<rparr>),
      fetchrow_reply = (\<lambda>tr. if length tr \<le> 1 then Inr (PTuple [PInt 1])
                              else Inr (PTuple [])),
      process_rows_reply = (\<lambda>tr. case last tr of ProcessRows rs \<Rightarrow> Inr rs
                                   | _ \<Rightarrow> Inr []),
      conn_escape = (\<lambda>c v. case v of
                              PStr s \<Rightarrow> Inr (PStr ([CHR 0x27] @ s @ [CHR 0x27]))
                            | _ \<Rightarrow> Inl ValueError),
      bytes_decode = (\<lambda>b. Inr b),
      str_upper = (\<lambda>s. s),
      str_format = (\<lambda>q v. Inr q),
      runtime = demo_runtime\<rparr>"

definition demo_dialect :: dialect where
  "demo_dialect =
     \<lparr>dialect_name = ''mysql'',
      isolation_lookup =
        [''SERIALIZABLE'', ''READ UNCOMMITTED'', ''READ COMMITTED'', ''REPEATABLE READ''],
      isolation_level = Some ''BOGUS_LEVEL'',
      server_version_info = None,
      is_mysql = (\<lambda>v. True)\<rparr>"

definition demo_context :: "int execution_context" where
  "demo_context = \<lparr>ctx_timeout = Some 1, ctx_statement = ''SELECT 1''\<rparr>"

definition demo_cursor :: dbapi_cursor where
  "demo_cursor = \<lparr>cursor_description = PNone, status = PNone\<rparr>"

definition demo_transaction :: "int transaction" where
  "demo_transaction = \<lparr>tx_conn = 1, tx_set_isolation = None\<rparr>"

section \<open>Properties\<close>

subsection \<open>Parsing the server version\<close>

lemma parse_step_append: "parse_step rt version n = version @ parse_step rt [] n"
  by (simp add: parse_step_def split: sum.splits option.splits)

lemma parse_loop_concat:
  "parse_loop rt version ns = version @ concat (map (parse_step rt []) ns)"
proof (induction ns arbitrary: version)
  case Nil
  show ?case by simp
next
  case (Cons n ns)
  have "parse_loop rt version (n # ns) =
      parse_step rt version n @ concat (map (parse_step rt []) ns)"
    by (simp add: Cons.IH)
  also have "\<dots> = version @ parse_step rt [] n @ concat (map (parse_step rt []) ns)"
    by (subst parse_step_append) simp
  finally show ?case by simp
qed

lemma re_split_not_Nil: "re_split s \<noteq> []"
  by (induction s) (auto split: list.splits)

lemma concat_re_split: "concat (re_split s) = filter (\<lambda>c. \<not> is_sep c) s"
  by (induction s) (auto split: list.splits simp: re_split_not_Nil)

lemma re_split_one_piece: "\<forall>c \<in> set s. \<not> is_sep c \<Longrightarrow> re_split s = [s]"
  by (induction s) auto

lemma digits_of_all_digits:
  "list_all (is_digit rt) n \<Longrightarrow> n \<noteq> [] \<or> prev \<Longrightarrow> digits_of rt prev n = Some n"
  by (induction n arbitrary: prev) auto

lemma digit_not_space: "is_digit rt c \<Longrightarrow> \<not> is_space rt c"
  by (auto simp: is_digit_def digit_of_def is_space_def split: if_splits)

lemma digit_not_sign: "is_digit rt c \<Longrightarrow> c \<noteq> 45 \<and> c \<noteq> 43 \<and> c \<noteq> 46"
  by (auto simp: is_digit_def digit_of_def split: if_splits)

lemma strip_all_digits:
  assumes "list_all (is_digit rt) n"
  shows "strip rt n = n"
proof -
  have a: "dropWhile (is_space rt) n = n"
    using assms by (cases n) (auto simp: digit_not_space)
  have "list_all (is_digit rt) (rev n)" using assms by (simp add: list_all_iff)
  then have b: "dropWhile (is_space rt) (rev n) = rev n"
    by (cases "rev n") (auto simp: digit_not_space)
  show ?thesis by (simp add: strip_def a b)
qed

lemma py_int_all_digits:
  assumes "list_all (is_digit rt) n" and "n \<noteq> []"
  shows "py_int rt n =
    (if over_limit rt (length n) then Inl ValueError else Inr (decimal rt n))"
proof -
  obtain c cs where n: "n = c # cs" using assms(2) by (cases n) auto
  have d: "is_digit rt c" using assms(1) n by simp
  have ns: "c \<noteq> 45" "c \<noteq> 43" using digit_not_sign[OF d] by simp_all
  have dg: "digits_of rt False (c # cs) = Some (c # cs)"
    using assms digits_of_all_digits[of rt n False] by (simp only: n) simp
  have st: "strip rt (c # cs) = c # cs"
    using strip_all_digits[OF assms(1)] by (simp only: n)
  show ?thesis
    unfolding py_int_def n st using ns dg by (simp del: digits_of.simps)
qed

lemma digits_of_chars:
  "digits_of rt prev s = Some ds \<Longrightarrow> c \<in> set s \<Longrightarrow> is_digit rt c \<or> c = 95"
  by (induction rt prev s arbitrary: ds rule: digits_of.induct) (auto split: if_splits)

lemma set_dropWhile_cases: "c \<in> set s \<Longrightarrow> c \<in> set (dropWhile P s) \<or> P c"
  by (induction s) (auto split: if_splits)

lemma strip_chars: "c \<in> set s \<Longrightarrow> c \<in> set (strip rt s) \<or> is_space rt c"
proof -
  assume "c \<in> set s"
  then have "c \<in> set (dropWhile (is_space rt) s) \<or> is_space rt c"
    by (rule set_dropWhile_cases)
  then show ?thesis
  proof
    assume "c \<in> set (dropWhile (is_space rt) s)"
    then have "c \<in> set (rev (dropWhile (is_space rt) s))" by simp
    then have "c \<in> set (dropWhile (is_space rt) (rev (dropWhile (is_space rt) s))) \<or>
        is_space rt c"
      by (rule set_dropWhile_cases)
    then show ?thesis by (auto simp: strip_def)
  qed simp
qed

lemma py_int_chars:
  assumes "py_int rt n = Inr i" and "c \<in> set n"
  shows "is_space rt c \<or> is_digit rt c \<or> c = 95 \<or> c = 45 \<or> c = 43"
proof -
  from strip_chars[OF assms(2), of rt] show ?thesis
  proof
    assume c: "c \<in> set (strip rt n)"
    show ?thesis
      using assms(1) c
      by (auto simp: py_int_def Let_def split: list.splits if_splits option.splits
               dest: digits_of_chars)
  qed simp
qed

lemma py_int_ValueError: "py_int rt n = Inl e \<Longrightarrow> e = ValueError"
  by (auto simp: py_int_def Let_def split: option.splits prod.splits if_splits)

lemma marker_letter: "77 \<in> set marker" "\<not> is_digit rt 77" "\<not> is_space rt 77" "10 \<notin> set marker"
  by (simp_all add: marker_def cps_def is_digit_def digit_of_def is_space_def)

lemma py_int_marker: "py_int rt (a @ marker @ b) = Inl ValueError"
proof (cases "py_int rt (a @ marker @ b)")
  case (Inl e)
  then show ?thesis using py_int_ValueError by blast
next
  case (Inr i)
  have "77 \<in> set (a @ marker @ b)" using marker_letter(1) by simp
  from py_int_chars[OF Inr this] show ?thesis
    using marker_letter(2,3)[of rt] by simp
qed

lemma last_marker_found: "last_marker (a @ marker @ b) \<noteq> None"
proof (induction a)
  case Nil
  show ?case by (simp add: marker_def cps_def split: option.splits)
next
  case (Cons c a)
  then show ?case by (auto split: option.splits)
qed

lemma last_marker_Some:
  "last_marker s = Some (a, b) \<Longrightarrow>
   s = a @ marker @ b \<and> (\<forall>a' b'. s = a' @ marker @ b' \<longrightarrow> length a' \<le> length a)"
proof (induction s arbitrary: a b)
  case Nil
  then show ?case by simp
next
  case (Cons c cs)
  show ?case
  proof (cases "last_marker cs")
    case None
    then have no: "\<And>a' b'. cs \<noteq> a' @ marker @ b'"
      using last_marker_found by metis
    from Cons.prems None have t: "take (length marker) (c # cs) = marker"
      and ab: "a = []" "b = drop (length marker) (c # cs)"
      by (auto split: if_splits)
    have eq: "c # cs = a @ marker @ b"
      using t ab append_take_drop_id[of "length marker" "c # cs"] by simp
    have "length a' \<le> length a" if "c # cs = a' @ marker @ b'" for a' b'
    proof (cases a')
      case Nil
      then show ?thesis by simp
    next
      case (Cons x xs)
      with that have "cs = xs @ marker @ b'" by simp
      with no show ?thesis by blast
    qed
    with eq show ?thesis by blast
  next
    case (Some p)
    obtain a0 b0 where p: "p = (a0, b0)" by (cases p)
    from Cons.prems Some p have ab: "a = c # a0" "b = b0"
      by simp_all
    from Cons.IH[of a0 b0] Some p have ih: "cs = a0 @ marker @ b0"
      "\<And>a' b'. cs = a' @ marker @ b' \<Longrightarrow> length a' \<le> length a0"
      by auto
    have "length a' \<le> length a" if "c # cs = a' @ marker @ b'" for a' b'
    proof (cases a')
      case Nil
      then show ?thesis by simp
    next
      case (Cons x xs)
      with that have "cs = xs @ marker @ b'" by simp
      from ih(2)[OF this] show ?thesis using Cons ab by simp
    qed
    with ih(1) ab show ?thesis by auto
  qed
qed

lemma last_marker_unique:
  assumes "last_marker s = Some (a0, b0)"
    and "s = a @ marker @ b"
    and "\<forall>a' b'. s = a' @ marker @ b' \<longrightarrow> length a' \<le> length a"
  shows "a = a0 \<and> b = b0"
proof -
  from last_marker_Some[OF assms(1)] have s: "s = a0 @ marker @ b0"
    and mx: "\<And>a' b'. s = a' @ marker @ b' \<Longrightarrow> length a' \<le> length a0"
    by auto
  have "length a \<le> length a0" using mx[OF assms(2)] .
  moreover have "length a0 \<le> length a" using assms(3) s by blast
  ultimately have "length a = length a0" by simp
  with assms(2) s show ?thesis by auto
qed

lemma parse_step_no_marker:
  assumes "py_int rt n = Inl e"
    and "\<forall>a b. first_line n \<noteq> a @ marker @ b"
  shows "parse_step rt [] n = [VStr n]"
proof -
  have "last_marker (first_line n) = None"
  proof (cases "last_marker (first_line n)")
    case (Some p)
    then obtain a b where "last_marker (first_line n) = Some (a, b)" by (cases p) auto
    from last_marker_Some[OF this] assms(2) show ?thesis by blast
  qed simp
  then show ?thesis
    using assms(1) by (simp add: parse_step_def re_match_mariadb_def)
qed

lemma parse_step_last_marker:
  assumes "first_line n = a @ marker @ b"
    and "\<forall>a' b'. first_line n = a' @ marker @ b' \<longrightarrow> length a' \<le> length a"
  shows "parse_step rt [] n = map VStr (filter (\<lambda>g. g \<noteq> []) [a, marker, b])"
proof -
  obtain p where "last_marker (first_line n) = Some p"
    using last_marker_found[of a b] assms(1) by (cases "last_marker (first_line n)") auto
  then obtain a0 b0 where l: "last_marker (first_line n) = Some (a0, b0)"
    by (cases p) auto
  from last_marker_unique[OF l assms] have ab: "a = a0" "b = b0"
    by simp_all
  have "\<exists>x y. n = x @ marker @ y"
  proof -
    have "n = first_line n @ dropWhile (\<lambda>c. c \<noteq> 10) n"
      by (simp add: first_line_def)
    then have "n = a @ marker @ (b @ dropWhile (\<lambda>c. c \<noteq> 10) n)"
      using assms(1) by simp
    then show ?thesis by blast
  qed
  then have "py_int rt n = Inl ValueError"
    using py_int_marker by metis
  then show ?thesis
    using l ab by (simp add: parse_step_def re_match_mariadb_def)
qed

lemma digits_no_marker:
  assumes "list_all (is_digit rt) n"
  shows "first_line n \<noteq> a @ marker @ b"
proof
  assume "first_line n = a @ marker @ b"
  then have "77 \<in> set (first_line n)" using marker_letter(1) by simp
  then have "77 \<in> set n" unfolding first_line_def by (rule set_takeWhileD[THEN conjunct1])
  with assms have "is_digit rt 77" by (simp add: list_all_iff)
  with marker_letter(2) show False by blast
qed

lemma parse_step_digits:
  assumes "n \<noteq> []" and "list_all (is_digit rt) n"
  shows "parse_step rt [] n =
    (if over_limit rt (length n) then [VStr n] else [VInt (decimal rt n)])"
proof (cases "over_limit rt (length n)")
  case True
  then have "py_int rt n = Inl ValueError"
    using py_int_all_digits[OF assms(2,1)] by simp
  moreover have "\<forall>a b. first_line n \<noteq> a @ marker @ b"
    using digits_no_marker[OF assms(2)] by blast
  ultimately show ?thesis
    using True parse_step_no_marker by simp
next
  case False
  then show ?thesis
    using py_int_all_digits[OF assms(2,1)] by (simp add: parse_step_def)
qed

lemma parse_example_mysql:
  "parse_server_version rt (cps ''8.0.31'') = [VInt 8, VInt 0, VInt 31]"
  by (simp add: parse_server_version_def parse_step_def py_int_def strip_def is_space_def
      is_digit_def digit_of_def is_sep_def decimal_def digit_val_def cps_def over_limit_def)

lemma parse_example_mariadb:
  "parse_server_version rt (cps ''5.5.5-10.3.7-MariaDB'') =
     [VInt 5, VInt 5, VInt 5, VInt 10, VInt 3, VInt 7, VStr (cps ''MariaDB'')]"
  by (simp add: parse_server_version_def parse_step_def py_int_def strip_def is_space_def
      is_digit_def digit_of_def is_sep_def decimal_def digit_val_def cps_def over_limit_def
      re_match_mariadb_def first_line_def marker_def)

text \<open>
  C3, as the code has it. \<^verbatim>\<open>"8.0.31"\<close> is parsed to \<open>(8, 0, 31)\<close> and
  \<^verbatim>\<open>"5.5.5-10.3.7-MariaDB"\<close> to \<open>(5, 5, 5, 10, 3, 7, "MariaDB")\<close>, on every interpreter. For
  every input: the pieces between the dots and dashes are the input without its
  separators, in the input's order, and the result is the concatenation, in that order,
  of what each piece contributes. A piece that \<^verbatim>\<open>int\<close> accepts contributes that integer; a
  piece made of decimal digits is accepted, with the value it denotes, unless it has
  more digits than the interpreter's limit, and then it is kept as a string. A piece that
  \<^verbatim>\<open>int\<close> refuses and whose first line has no marker is kept whole as one string. A piece
  with the marker in its first line contributes the text before the last marker of that
  line, the marker and the rest of that line, as strings, the empty ones left out.
\<close>

theorem parse_server_version_components:
  "parse_server_version rt (cps ''8.0.31'') = [VInt 8, VInt 0, VInt 31] \<and>
   parse_server_version rt (cps ''5.5.5-10.3.7-MariaDB'') =
     [VInt 5, VInt 5, VInt 5, VInt 10, VInt 3, VInt 7, VStr (cps ''MariaDB'')] \<and>
   concat (re_split val) = filter (\<lambda>c. \<not> is_sep c) val \<and>
   parse_server_version rt val = concat (map (parse_step rt []) (re_split val)) \<and>
   (\<forall>n i. py_int rt n = Inr i \<longrightarrow> parse_step rt [] n = [VInt i]) \<and>
   (\<forall>n. n \<noteq> [] \<and> list_all (is_digit rt) n \<longrightarrow>
      parse_step rt [] n =
        (if over_limit rt (length n) then [VStr n] else [VInt (decimal rt n)])) \<and>
   (\<forall>n e. py_int rt n = Inl e \<and> (\<forall>a b. first_line n \<noteq> a @ marker @ b) \<longrightarrow>
      parse_step rt [] n = [VStr n]) \<and>
   (\<forall>n a b.
      first_line n = a @ marker @ b \<and>
      (\<forall>a' b'. first_line n = a' @ marker @ b' \<longrightarrow> length a' \<le> length a) \<longrightarrow>
      parse_step rt [] n = map VStr (filter (\<lambda>g. g \<noteq> []) [a, marker, b]))"
proof (intro conjI allI impI)
  show "parse_server_version rt (cps ''8.0.31'') = [VInt 8, VInt 0, VInt 31]"
    by (rule parse_example_mysql)
  show "parse_server_version rt (cps ''5.5.5-10.3.7-MariaDB'') =
     [VInt 5, VInt 5, VInt 5, VInt 10, VInt 3, VInt 7, VStr (cps ''MariaDB'')]"
    by (rule parse_example_mariadb)
  show "concat (re_split val) = filter (\<lambda>c. \<not> is_sep c) val"
    by (rule concat_re_split)
  show "parse_server_version rt val = concat (map (parse_step rt []) (re_split val))"
    by (simp add: parse_server_version_def parse_loop_concat)
next
  fix n i
  assume "py_int rt n = Inr i"
  then show "parse_step rt [] n = [VInt i]"
    by (simp add: parse_step_def)
next
  fix n
  assume "n \<noteq> [] \<and> list_all (is_digit rt) n"
  then show "parse_step rt [] n =
      (if over_limit rt (length n) then [VStr n] else [VInt (decimal rt n)])"
    using parse_step_digits by blast
next
  fix n e
  assume "py_int rt n = Inl e \<and> (\<forall>a b. first_line n \<noteq> a @ marker @ b)"
  then show "parse_step rt [] n = [VStr n]"
    using parse_step_no_marker by blast
next
  fix n a b
  assume "first_line n = a @ marker @ b \<and>
      (\<forall>a' b'. first_line n = a' @ marker @ b' \<longrightarrow> length a' \<le> length a)"
  then show "parse_step rt [] n = map VStr (filter (\<lambda>g. g \<noteq> []) [a, marker, b])"
    using parse_step_last_marker by blast
qed

theorem parse_server_version_components_witness:
  "list_all (is_digit demo_runtime) (cps ''10'') \<and>
   parse_step demo_runtime [] (cps ''10'') = [VInt 10] \<and>
   list_all (is_digit demo_runtime) [1633, 1634] \<and>
   parse_step demo_runtime [] [1633, 1634] = [VInt 12] \<and>
   list_all (is_digit demo_runtime) (replicate 4301 48) \<and>
   parse_step demo_runtime [] (replicate 4301 48) = [VStr (replicate 4301 48)] \<and>
   py_int demo_runtime (cps ''log'') = Inl ValueError \<and>
   parse_step demo_runtime [] (cps ''log'') = [VStr (cps ''log'')] \<and>
   first_line (cps ''aMariaDBbMariaDB'' @ [10] @ cps ''c'') =
     cps ''aMariaDBb'' @ marker @ [] \<and>
   parse_step demo_runtime [] (cps ''aMariaDBbMariaDB'' @ [10] @ cps ''c'') =
     [VStr (cps ''aMariaDBb''), VStr (cps ''MariaDB'')] \<and>
   parse_server_version demo_runtime (cps ''10.3-log'') =
     concat (map (parse_step demo_runtime []) [cps ''10'', cps ''3'', cps ''log''])"
proof -
  note t = parse_server_version_components [where rt = demo_runtime and val = "cps ''10.3-log''"]
  have d1: "cps ''10'' \<noteq> [] \<and> list_all (is_digit demo_runtime) (cps ''10'')"
    by (simp add: cps_def is_digit_def digit_of_def)
  have l1: "\<not> over_limit demo_runtime (length (cps ''10''))"
    by (simp add: over_limit_def cps_def)
  from t d1 have "parse_step demo_runtime [] (cps ''10'') =
      (if over_limit demo_runtime (length (cps ''10'')) then [VStr (cps ''10'')]
       else [VInt (decimal demo_runtime (cps ''10''))])"
    by blast
  with l1 have 1: "parse_step demo_runtime [] (cps ''10'') = [VInt 10]"
    by (simp add: decimal_def digit_val_def digit_of_def cps_def)
  have d2: "[1633, 1634] \<noteq> [] \<and> list_all (is_digit demo_runtime) [1633, 1634]"
    by (simp add: is_digit_def digit_of_def demo_runtime_def)
  from t d2 have "parse_step demo_runtime [] [1633, 1634] =
      (if over_limit demo_runtime (length [1633, 1634 :: nat]) then [VStr [1633, 1634]]
       else [VInt (decimal demo_runtime [1633, 1634])])"
    by blast
  then have 2: "parse_step demo_runtime [] [1633, 1634] = [VInt 12]"
    by (simp add: over_limit_def decimal_def digit_val_def digit_of_def demo_runtime_def)
  have d3: "replicate 4301 48 \<noteq> [] \<and> list_all (is_digit demo_runtime) (replicate 4301 48)"
    by (simp add: list_all_iff is_digit_def digit_of_def)
  have l3: "over_limit demo_runtime (length (replicate 4301 (48 :: nat)))"
    by (simp add: over_limit_def demo_runtime_def)
  from t d3 have "parse_step demo_runtime [] (replicate 4301 48) =
      (if over_limit demo_runtime (length (replicate 4301 (48 :: nat)))
       then [VStr (replicate 4301 48)]
       else [VInt (decimal demo_runtime (replicate 4301 48))])"
    by blast
  with l3 have 3: "parse_step demo_runtime [] (replicate 4301 48) = [VStr (replicate 4301 48)]"
    by (simp only: if_True)
  have p4: "py_int demo_runtime (cps ''log'') = Inl ValueError"
    by (simp add: py_int_def strip_def is_space_def is_digit_def digit_of_def cps_def
        demo_runtime_def)
  have n4: "\<forall>a b. first_line (cps ''log'') \<noteq> a @ marker @ b"
  proof (intro allI notI)
    fix a b
    assume "first_line (cps ''log'') = a @ marker @ b"
    then have "length (first_line (cps ''log'')) = length (a @ marker @ b)"
      by simp
    then show False
      by (simp add: first_line_def cps_def marker_def)
  qed
  from t p4 n4 have 4: "parse_step demo_runtime [] (cps ''log'') = [VStr (cps ''log'')]"
    by blast
  let ?n = "cps ''aMariaDBbMariaDB'' @ [10] @ cps ''c''"
  have f5: "first_line ?n = cps ''aMariaDBb'' @ marker @ []"
    by (simp add: first_line_def cps_def marker_def)
  have "last_marker (first_line ?n) = Some (cps ''aMariaDBb'', [])"
    by (simp add: first_line_def cps_def marker_def)
  from last_marker_Some[OF this]
  have m5: "\<forall>a' b'. first_line ?n = a' @ marker @ b' \<longrightarrow> length a' \<le> length (cps ''aMariaDBb'')"
    by blast
  from t f5 m5 have "parse_step demo_runtime [] ?n =
      map VStr (filter (\<lambda>g. g \<noteq> []) [cps ''aMariaDBb'', marker, []])"
    by blast
  then have 5: "parse_step demo_runtime [] ?n = [VStr (cps ''aMariaDBb''), VStr (cps ''MariaDB'')]"
    by (simp add: marker_def cps_def)
  from t have "parse_server_version demo_runtime (cps ''10.3-log'') =
      concat (map (parse_step demo_runtime []) (re_split (cps ''10.3-log'')))"
    by blast
  then have 6: "parse_server_version demo_runtime (cps ''10.3-log'') =
      concat (map (parse_step demo_runtime []) [cps ''10'', cps ''3'', cps ''log''])"
    by (simp add: is_sep_def cps_def)
  from d1 1 d2 2 d3 3 p4 4 f5 5 6 show ?thesis
    by blast
qed

text \<open>
  On an interpreter with the default limit, a piece of 4301 zeros is all digits and is
  kept as a string; and a marker that stands after a newline is not split off as a
  component of its own.
\<close>

theorem parse_server_version_counterexample:
  "parse_server_version demo_runtime (replicate 4301 48) = [VStr (replicate 4301 48)] \<and>
   parse_server_version demo_runtime ([120, 10] @ cps ''MariaDB'') =
     [VStr ([120, 10] @ cps ''MariaDB'')]"
proof
  have sep: "\<forall>c \<in> set (replicate 4301 (48 :: nat)). \<not> is_sep c"
    by (simp add: is_sep_def)
  have d: "list_all (is_digit demo_runtime) (replicate 4301 48)"
    by (simp add: list_all_iff is_digit_def digit_of_def)
  have l: "over_limit demo_runtime (length (replicate 4301 (48 :: nat)))"
    by (simp add: over_limit_def demo_runtime_def)
  have "parse_step demo_runtime [] (replicate 4301 48) = [VStr (replicate 4301 48)]"
    using parse_step_digits[OF _ d] l by simp
  then show "parse_server_version demo_runtime (replicate 4301 48) = [VStr (replicate 4301 48)]"
    by (simp add: parse_server_version_def re_split_one_piece[OF sep])
  show "parse_server_version demo_runtime ([120, 10] @ cps ''MariaDB'') =
     [VStr ([120, 10] @ cps ''MariaDB'')]"
    by (simp add: parse_server_version_def parse_step_def py_int_def strip_def is_space_def
        is_digit_def digit_of_def is_sep_def cps_def re_match_mariadb_def first_line_def
        marker_def demo_runtime_def)
qed

subsection \<open>Sequencing\<close>

lemma then_io_call:
  "then_io (call_io reply ev) f tr =
     (case reply (tr @ [ev]) of Inl e \<Rightarrow> (Inl e, tr @ [ev]) | Inr x \<Rightarrow> f x (tr @ [ev]))"
  by (simp add: then_io_def call_io_def split: sum.splits)

lemma then_io_lift:
  "then_io (lift_io r) f tr = (case r of Inl e \<Rightarrow> (Inl e, tr) | Inr x \<Rightarrow> f x tr)"
  by (simp add: then_io_def lift_io_def split: sum.splits)

lemma then_io_return: "then_io (return_io x) f tr = f x tr"
  by (simp add: then_io_def return_io_def)

lemma then_io_raise: "then_io (raise_io e) f tr = (Inl e, tr)"
  by (simp add: then_io_def raise_io_def)

subsection \<open>The streaming cursor\<close>

text \<open>
  C10. \<^verbatim>\<open>next\<close> fetches one row with the timeout given, or with the context's when none is
  given. \<^verbatim>\<open>None\<close> and the empty row are falsy. If the fetched row is falsy, \<^verbatim>\<open>next\<close> returns
  \<^verbatim>\<open>None\<close> and the fetch is the only call made: the rows are not post-processed. If it is
  truthy, \<^verbatim>\<open>process_rows\<close> is called once, on that row alone, and the first row of its answer
  is returned.
\<close>

theorem AiomysqlCursor_next_row:
  assumes "t = (case timeout of DEFAULT \<Rightarrow> ctx_timeout (cur_context self) | Timeout t' \<Rightarrow> t')"
    and "tr1 = tr @ [Fetchrow (cur_cursor self) t]"
    and "fetchrow_reply d tr1 = Inr row"
  shows "\<not> py_truthy PNone \<and> \<not> py_truthy (PTuple []) \<and>
    (\<not> py_truthy row \<longrightarrow> AiomysqlCursor_next d self timeout tr = (Inr PNone, tr1)) \<and>
    (py_truthy row \<longrightarrow>
       (\<forall>r rs. process_rows_reply d (tr1 @ [ProcessRows [row]]) = Inr (r # rs) \<longrightarrow>
          AiomysqlCursor_next d self timeout tr = (Inr r, tr1 @ [ProcessRows [row]])))"
  using assms
  by (simp add: AiomysqlCursor_next_def then_io_call return_io_def lift_io_def py_first_def)

theorem AiomysqlCursor_next_row_witness:
  "AiomysqlCursor_next demo_env \<lparr>cur_context = demo_context, cur_cursor = 7\<rparr> DEFAULT [] =
     (Inr (PTuple [PInt 1]), [Fetchrow 7 (Some 1), ProcessRows [PTuple [PInt 1]]]) \<and>
   AiomysqlCursor_next demo_env \<lparr>cur_context = demo_context, cur_cursor = 7\<rparr> (Timeout None)
       [Fetchrow 7 (Some 1), ProcessRows [PTuple [PInt 1]]] =
     (Inr PNone, [Fetchrow 7 (Some 1), ProcessRows [PTuple [PInt 1]], Fetchrow 7 None])"
proof -
  let ?self = "\<lparr>cur_context = demo_context, cur_cursor = 7\<rparr>"
  let ?tr = "[Fetchrow 7 (Some 1), ProcessRows [PTuple [PInt 1]]] :: int event list"
  have a: "fetchrow_reply demo_env [Fetchrow 7 (Some 1)] = Inr (PTuple [PInt 1])"
    by (simp add: demo_env_def)
  have b: "process_rows_reply demo_env [Fetchrow 7 (Some 1), ProcessRows [PTuple [PInt 1]]]
             = Inr [PTuple [PInt 1]]"
    by (simp add: demo_env_def)
  have c: "fetchrow_reply demo_env (?tr @ [Fetchrow 7 None]) = Inr (PTuple [])"
    by (simp add: demo_env_def)
  have "AiomysqlCursor_next demo_env ?self DEFAULT [] =
     (Inr (PTuple [PInt 1]), [Fetchrow 7 (Some 1), ProcessRows [PTuple [PInt 1]]])"
    using AiomysqlCursor_next_row [where t = "Some 1" and timeout = DEFAULT and self = ?self
        and ?tr1.0 = "[Fetchrow 7 (Some 1)]" and tr = "[]" and d = demo_env
        and row = "PTuple [PInt 1]"] a b
    by (simp add: demo_context_def)
  moreover have "AiomysqlCursor_next demo_env ?self (Timeout None) ?tr =
     (Inr PNone, ?tr @ [Fetchrow 7 None])"
    using AiomysqlCursor_next_row [where t = None and timeout = "Timeout None" and self = ?self
        and ?tr1.0 = "?tr @ [Fetchrow 7 None]" and tr = ?tr and d = demo_env
        and row = "PTuple []"] c
    by simp
  ultimately show ?thesis by simp
qed

subsection \<open>Escaping query arguments\<close>

lemma escape_each_map:
  "\<forall>x \<in> set xs. esc x = Inr (f x) \<Longrightarrow> escape_each esc xs = Inr (map f xs)"
  by (induction xs) auto

lemma escape_items_map:
  "\<forall>(k, v) \<in> set kvs. esc v = Inr (f v) \<Longrightarrow>
   escape_items esc kvs = Inr (map (\<lambda>(k, v). (k, f v)) kvs)"
  by (induction kvs) auto

lemma escape_each_first_failure:
  "\<forall>x \<in> set pre. esc x = Inr (f x) \<Longrightarrow> esc y = Inl e \<Longrightarrow>
   escape_each esc (pre @ y # post) = Inl e"
  by (induction pre) auto

text \<open>
  C9. When every element can be escaped, a tuple or a list is escaped to the tuple of
  its escaped elements, in order, and a dict to the dict of the same keys, in order, each
  with its value escaped. Any other value is passed to the connection's escaper as it is,
  and the outcome is the escaper's: an exception it raises (a \<^verbatim>\<open>ValueError\<close>, say) reaches
  the caller unchanged.
\<close>

theorem escape_args_shape:
  "((\<forall>x \<in> set xs. conn_escape d conn x = Inr (f x)) \<longrightarrow>
      escape_args d (PTuple xs) conn = Inr (PTuple (map f xs)) \<and>
      escape_args d (PList xs) conn = Inr (PTuple (map f xs))) \<and>
   ((\<forall>(k, v) \<in> set kvs. conn_escape d conn v = Inr (f v)) \<longrightarrow>
      (\<exists>kvs'. escape_args d (PDict kvs) conn = Inr (PDict kvs') \<and>
         map fst kvs' = map fst kvs \<and> map snd kvs' = map (\<lambda>(k, v). f v) kvs)) \<and>
   ((\<forall>ys. args \<noteq> PTuple ys) \<and> (\<forall>ys. args \<noteq> PList ys) \<and> (\<forall>ys. args \<noteq> PDict ys) \<longrightarrow>
      escape_args d args conn = conn_escape d conn args \<and>
      (conn_escape d conn args = Inl ValueError \<longrightarrow> escape_args d args conn = Inl ValueError))"
proof (intro conjI impI)
  assume a: "\<forall>x \<in> set xs. conn_escape d conn x = Inr (f x)"
  show "escape_args d (PTuple xs) conn = Inr (PTuple (map f xs))"
    by (simp add: escape_args_def escape_each_map[OF a])
  show "escape_args d (PList xs) conn = Inr (PTuple (map f xs))"
    by (simp add: escape_args_def escape_each_map[OF a])
next
  assume a: "\<forall>(k, v) \<in> set kvs. conn_escape d conn v = Inr (f v)"
  have "escape_args d (PDict kvs) conn = Inr (PDict (map (\<lambda>(k, v). (k, f v)) kvs))"
    by (simp add: escape_args_def escape_items_map[OF a])
  moreover have "map fst (map (\<lambda>(k, v). (k, f v)) kvs) = map fst kvs"
    by (induction kvs) auto
  moreover have "map snd (map (\<lambda>(k, v). (k, f v)) kvs) = map (\<lambda>(k, v). f v) kvs"
    by (induction kvs) auto
  ultimately show "\<exists>kvs'. escape_args d (PDict kvs) conn = Inr (PDict kvs') \<and>
         map fst kvs' = map fst kvs \<and> map snd kvs' = map (\<lambda>(k, v). f v) kvs"
    by blast
next
  assume s: "(\<forall>ys. args \<noteq> PTuple ys) \<and> (\<forall>ys. args \<noteq> PList ys) \<and> (\<forall>ys. args \<noteq> PDict ys)"
  then show e: "escape_args d args conn = conn_escape d conn args"
    by (cases args) (simp_all add: escape_args_def)
  assume "conn_escape d conn args = Inl ValueError"
  with e show "escape_args d args conn = Inl ValueError"
    by simp
qed

theorem escape_args_shape_witness:
  "escape_args demo_env (PTuple [PStr ''a'', PStr ''b'']) 1 =
     Inr (PTuple [PStr [CHR 0x27, CHR ''a'', CHR 0x27], PStr [CHR 0x27, CHR ''b'', CHR 0x27]]) \<and>
   (\<exists>kvs'. escape_args demo_env (PDict [(PStr ''k'', PStr ''a'')]) 1 = Inr (PDict kvs') \<and>
      map fst kvs' = [PStr ''k'']) \<and>
   conn_escape demo_env 1 (PInt 3) = Inl ValueError \<and>
   escape_args demo_env (PInt 3) 1 = Inl ValueError"
proof -
  let ?f = "\<lambda>v. case v of PStr s \<Rightarrow> PStr ([CHR 0x27] @ s @ [CHR 0x27]) | _ \<Rightarrow> PNone"
  note t = escape_args_shape [where d = demo_env and conn = 1 and f = ?f and args = "PInt 3"
      and xs = "[PStr ''a'', PStr ''b'']" and kvs = "[(PStr ''k'', PStr ''a'')]"]
  have a: "\<forall>x \<in> set [PStr ''a'', PStr ''b'']. conn_escape demo_env 1 x = Inr (?f x)"
    by (simp add: demo_env_def)
  have b: "\<forall>(k, v) \<in> set [(PStr ''k'', PStr ''a'')]. conn_escape demo_env 1 v = Inr (?f v)"
    by (simp add: demo_env_def)
  have c: "conn_escape demo_env 1 (PInt 3) = Inl ValueError"
    by (simp add: demo_env_def)
  from t a have "escape_args demo_env (PTuple [PStr ''a'', PStr ''b'']) 1 =
      Inr (PTuple (map ?f [PStr ''a'', PStr ''b'']))"
    by blast
  then have 1: "escape_args demo_env (PTuple [PStr ''a'', PStr ''b'']) 1 =
     Inr (PTuple [PStr [CHR 0x27, CHR ''a'', CHR 0x27], PStr [CHR 0x27, CHR ''b'', CHR 0x27]])"
    by simp
  from t b have 2: "\<exists>kvs'. escape_args demo_env (PDict [(PStr ''k'', PStr ''a'')]) 1 =
      Inr (PDict kvs') \<and> map fst kvs' = map fst [(PStr ''k'', PStr ''a'')] \<and>
      map snd kvs' = map (\<lambda>(k, v). ?f v) [(PStr ''k'', PStr ''a'')]"
    by blast
  from t c have 3: "escape_args demo_env (PInt 3) 1 = Inl ValueError"
    by simp
  from 1 2 3 c show ?thesis
    by auto
qed

subsection \<open>Transactions\<close>

text \<open>
  C6, as the code has it. \<^verbatim>\<open>commit\<close> and \<^verbatim>\<open>rollback\<close> keep no state and check none: from
  any trace, so whether or not the transaction was begun or already ended, each makes
  the one call on the held connection and returns or raises what that call does.
\<close>

theorem Transaction_commit_rollback_any_state:
  "Transaction_commit d self tr =
     (unit_reply d (tr @ [ConnCommit (tx_conn self)]), tr @ [ConnCommit (tx_conn self)]) \<and>
   Transaction_rollback d self tr =
     (unit_reply d (tr @ [ConnRollback (tx_conn self)]), tr @ [ConnRollback (tx_conn self)])"
  by (simp add: Transaction_commit_def Transaction_rollback_def call_io_def)

text \<open>
  A transaction that was never begun commits, and one already committed rolls back:
  the command is issued and no error is raised.
\<close>

theorem Transaction_commit_state_counterexample:
  "Transaction_commit demo_env demo_transaction [] = (Inr (), [ConnCommit 1]) \<and>
   Transaction_rollback demo_env demo_transaction [ConnBegin 1, ConnCommit 1] =
     (Inr (), [ConnBegin 1, ConnCommit 1, ConnRollback 1])"
  by (simp add: Transaction_commit_def Transaction_rollback_def call_io_def demo_env_def
      demo_transaction_def)

subsection \<open>Setting the isolation level\<close>

lemma py_join_contains:
  "x \<in> set xs \<Longrightarrow> \<exists>pre post. py_join sep xs = pre @ x @ post"
proof (induction sep xs rule: py_join.induct)
  case (1 sep)
  then show ?case by simp
next
  case (2 sep y)
  then have "py_join sep [y] = [] @ x @ []" by simp
  then show ?case by blast
next
  case (3 sep y z zs)
  show ?case
  proof (cases "x = y")
    case True
    then have "py_join sep (y # z # zs) = [] @ x @ (sep @ py_join sep (z # zs))" by simp
    then show ?thesis by blast
  next
    case False
    with 3 obtain pre post where "py_join sep (z # zs) = pre @ x @ post" by auto
    then have "py_join sep (y # z # zs) = (y @ sep @ pre) @ x @ post" by simp
    then show ?thesis by blast
  qed
qed

lemma invalid_level_message_names_level:
  "\<exists>pre post. invalid_level_message self level = pre @ level @ post"
proof -
  have "invalid_level_message self level =
      (''Invalid value '' @ [CHR 0x27]) @ level @
      ([CHR 0x27] @ '' for isolation_level. Valid isolation levels for '' @ dialect_name self @
       '' are '' @ py_join '', '' (isolation_lookup self))"
    by (simp add: invalid_level_message_def)
  then show ?thesis by blast
qed

lemma invalid_level_message_names_valid:
  assumes "x \<in> set (isolation_lookup self)"
  shows "\<exists>pre post. invalid_level_message self level = pre @ x @ post"
proof -
  obtain pre post where "py_join '', '' (isolation_lookup self) = pre @ x @ post"
    using py_join_contains[OF assms] by blast
  then have "invalid_level_message self level =
      (''Invalid value '' @ [CHR 0x27] @ level @ [CHR 0x27] @
       '' for isolation_level. Valid isolation levels for '' @ dialect_name self @
       '' are '' @ pre) @ x @ post"
    by (simp add: invalid_level_message_def)
  then show ?thesis by blast
qed

text \<open>
  C4. \<^verbatim>\<open>set_isolation_level\<close> replaces the underscores of the name by spaces and looks the
  result up in the dialect's set. If it is not there, the call raises \<^verbatim>\<open>ArgumentError\<close>
  and the trace is left as it was: no cursor is opened and no statement issued. The
  message contains the name looked up and every name of the set. If it is there, the
  first thing the call does is open a cursor on the connection.
\<close>

theorem set_isolation_level_unrecognized:
  "(py_replace CHR ''_'' CHR '' '' level \<notin> set (isolation_lookup self) \<longrightarrow>
      (\<exists>msg. set_isolation_level d self connection level tr = (Inl (ArgumentError msg), tr) \<and>
         (\<exists>pre post. msg = pre @ py_replace CHR ''_'' CHR '' '' level @ post) \<and>
         (\<forall>x \<in> set (isolation_lookup self). \<exists>pre post. msg = pre @ x @ post))) \<and>
   (py_replace CHR ''_'' CHR '' '' level \<in> set (isolation_lookup self) \<longrightarrow>
      (\<exists>r evs. set_isolation_level d self connection level tr =
         (r, tr @ ConnCursor connection # evs)))"
proof (intro conjI impI)
  let ?level = "py_replace CHR ''_'' CHR '' '' level"
  assume "?level \<notin> set (isolation_lookup self)"
  then have "set_isolation_level d self connection level tr =
      (Inl (ArgumentError (invalid_level_message self ?level)), tr)"
    by (simp add: set_isolation_level_def priv_set_isolation_level_def raise_io_def)
  then show "\<exists>msg. set_isolation_level d self connection level tr = (Inl (ArgumentError msg), tr) \<and>
         (\<exists>pre post. msg = pre @ ?level @ post) \<and>
         (\<forall>x \<in> set (isolation_lookup self). \<exists>pre post. msg = pre @ x @ post)"
    using invalid_level_message_names_level[of self ?level]
      invalid_level_message_names_valid[of _ self ?level]
    by blast
next
  let ?level = "py_replace CHR ''_'' CHR '' '' level"
  assume "?level \<in> set (isolation_lookup self)"
  then show "\<exists>r evs. set_isolation_level d self connection level tr =
         (r, tr @ ConnCursor connection # evs)"
    by (auto simp: set_isolation_level_def priv_set_isolation_level_def then_io_call call_io_def
        split: sum.splits)
qed

theorem set_isolation_level_unrecognized_witness:
  "py_replace CHR ''_'' CHR '' '' ''BOGUS_LEVEL'' = ''BOGUS LEVEL'' \<and>
   ''BOGUS LEVEL'' \<notin> set (isolation_lookup demo_dialect) \<and>
   (\<exists>msg. set_isolation_level demo_env demo_dialect 1 ''BOGUS_LEVEL'' [ConnBegin 1] =
      (Inl (ArgumentError msg), [ConnBegin 1])) \<and>
   py_replace CHR ''_'' CHR '' '' ''READ_COMMITTED'' \<in> set (isolation_lookup demo_dialect) \<and>
   (\<exists>r evs. set_isolation_level demo_env demo_dialect 1 ''READ_COMMITTED'' [] =
      (r, [] @ ConnCursor 1 # evs))"
proof -
  have a: "py_replace CHR ''_'' CHR '' '' ''BOGUS_LEVEL'' = ''BOGUS LEVEL''"
    by (simp add: py_replace_def)
  have b: "''BOGUS LEVEL'' \<notin> set (isolation_lookup demo_dialect)"
    by (simp add: demo_dialect_def)
  have c: "py_replace CHR ''_'' CHR '' '' ''READ_COMMITTED'' \<in> set (isolation_lookup demo_dialect)"
    by (simp add: demo_dialect_def py_replace_def)
  from a b set_isolation_level_unrecognized
    [where level = "''BOGUS_LEVEL''" and self = demo_dialect and d = demo_env
      and connection = 1 and tr = "[ConnBegin 1]"]
  have 1: "\<exists>msg. set_isolation_level demo_env demo_dialect 1 ''BOGUS_LEVEL'' [ConnBegin 1] =
      (Inl (ArgumentError msg), [ConnBegin 1])"
    by auto
  from c set_isolation_level_unrecognized
    [where level = "''READ_COMMITTED''" and self = demo_dialect and d = demo_env
      and connection = 1 and tr = "[]"]
  have 2: "\<exists>r evs. set_isolation_level demo_env demo_dialect 1 ''READ_COMMITTED'' [] =
      (r, [] @ ConnCursor 1 # evs)"
    by blast
  from a b c 1 2 show ?thesis by blast
qed

subsection \<open>Beginning a transaction\<close>

lemma set_isolation_level_issued:
  assumes "py_replace CHR ''_'' CHR '' '' level \<in> set (isolation_lookup self)"
    and "cursor_reply d (tr @ [ConnCursor c]) = Inr k"
    and "\<forall>evs. unit_reply d (tr @ ConnCursor c # evs) = Inr ()"
  shows "set_isolation_level d self c level tr =
     (Inr (), tr @ [ConnCursor c,
        CursorExecute k (''SET SESSION TRANSACTION ISOLATION LEVEL '' @
                         py_replace CHR ''_'' CHR '' '' level),
        CursorExecute k ''COMMIT'', CursorClose k])"
proof -
  let ?set = "CursorExecute k (''SET SESSION TRANSACTION ISOLATION LEVEL '' @
                         py_replace CHR ''_'' CHR '' '' level)"
  have 1: "unit_reply d (tr @ [ConnCursor c, ?set]) = Inr ()"
    using assms(3) by simp
  have 2: "unit_reply d (tr @ [ConnCursor c, ?set, CursorExecute k ''COMMIT'']) = Inr ()"
    using assms(3) by simp
  have 3: "unit_reply d (tr @ [ConnCursor c, ?set, CursorExecute k ''COMMIT'', CursorClose k])
      = Inr ()"
    using assms(3) by simp
  show ?thesis
    using assms(1,2) 1 2 3
    by (simp add: set_isolation_level_def priv_set_isolation_level_def then_io_call call_io_def)
qed

text \<open>
  C5. \<^verbatim>\<open>begin\<close> first issues the begin command on the held connection. If that raises,
  nothing else is done. If it returns and no isolation setter is bound, \<^verbatim>\<open>begin\<close> is over,
  with the begin command as its only call. If a setter is bound, it is run on the held
  connection right after the begin command, and \<^verbatim>\<open>begin\<close> ends when the setter does; a
  statement the caller issues after \<^verbatim>\<open>begin\<close> returned follows everything \<^verbatim>\<open>begin\<close> did.
  \<^verbatim>\<open>transaction\<close> binds a setter exactly when the keyword \<^verbatim>\<open>isolation\<close> is given; with a
  recognized level and a driver that answers, the calls of \<^verbatim>\<open>begin\<close> are the begin command,
  then the SET statement and its COMMIT on a cursor of that connection.
\<close>

theorem Transaction_begin_order:
  "(\<forall>e. unit_reply d (tr @ [ConnBegin (tx_conn self)]) = Inl e \<longrightarrow>
      Transaction_begin d self tr = (Inl e, tr @ [ConnBegin (tx_conn self)])) \<and>
   (unit_reply d (tr @ [ConnBegin (tx_conn self)]) = Inr () \<longrightarrow>
      (tx_set_isolation self = None \<longrightarrow>
         Transaction_begin d self tr = (Inr (), tr @ [ConnBegin (tx_conn self)])) \<and>
      (\<forall>f. tx_set_isolation self = Some f \<longrightarrow>
         Transaction_begin d self tr = f (tx_conn self) (tr @ [ConnBegin (tx_conn self)]))) \<and>
   (\<forall>tr' reply ev. Transaction_begin d self tr = (Inr (), tr') \<longrightarrow>
      then_io (Transaction_begin d self) (\<lambda>u. call_io reply ev) tr =
        (reply (tr' @ [ev]), tr' @ [ev])) \<and>
   (kwargs ''isolation'' = None \<longrightarrow>
      tx_set_isolation (transaction d dia c kwargs) = None) \<and>
   (\<forall>level k.
      kwargs ''isolation'' = Some level \<and>
      py_replace CHR ''_'' CHR '' '' level \<in> set (isolation_lookup dia) \<and>
      cursor_reply d (tr @ [ConnBegin c, ConnCursor c]) = Inr k \<and>
      (\<forall>evs. unit_reply d (tr @ ConnBegin c # evs) = Inr ()) \<longrightarrow>
      Transaction_begin d (transaction d dia c kwargs) tr =
        (Inr (), tr @ [ConnBegin c, ConnCursor c,
           CursorExecute k (''SET SESSION TRANSACTION ISOLATION LEVEL '' @
                            py_replace CHR ''_'' CHR '' '' level),
           CursorExecute k ''COMMIT'', CursorClose k]))"
proof (intro conjI allI impI)
  fix e
  assume "unit_reply d (tr @ [ConnBegin (tx_conn self)]) = Inl e"
  then show "Transaction_begin d self tr = (Inl e, tr @ [ConnBegin (tx_conn self)])"
    by (simp add: Transaction_begin_def then_io_call)
next
  assume "unit_reply d (tr @ [ConnBegin (tx_conn self)]) = Inr ()"
    and "tx_set_isolation self = None"
  then show "Transaction_begin d self tr = (Inr (), tr @ [ConnBegin (tx_conn self)])"
    by (simp add: Transaction_begin_def then_io_call return_io_def)
next
  fix f
  assume "unit_reply d (tr @ [ConnBegin (tx_conn self)]) = Inr ()"
    and "tx_set_isolation self = Some f"
  then show "Transaction_begin d self tr = f (tx_conn self) (tr @ [ConnBegin (tx_conn self)])"
    by (simp add: Transaction_begin_def then_io_call)
next
  fix tr' :: "'a event list" and reply :: "'a event list \<Rightarrow> exn + 'b" and ev
  assume "Transaction_begin d self tr = (Inr (), tr')"
  then show "then_io (Transaction_begin d self) (\<lambda>u. call_io reply ev) tr =
        (reply (tr' @ [ev]), tr' @ [ev])"
    by (simp add: then_io_def call_io_def)
next
  assume "kwargs ''isolation'' = None"
  then show "tx_set_isolation (transaction d dia c kwargs) = None"
    by (simp add: transaction_def)
next
  fix level k
  assume a: "kwargs ''isolation'' = Some level \<and>
      py_replace CHR ''_'' CHR '' '' level \<in> set (isolation_lookup dia) \<and>
      cursor_reply d (tr @ [ConnBegin c, ConnCursor c]) = Inr k \<and>
      (\<forall>evs. unit_reply d (tr @ ConnBegin c # evs) = Inr ())"
  then have b: "unit_reply d (tr @ [ConnBegin c]) = Inr ()"
    by blast
  have u: "\<forall>evs. unit_reply d ((tr @ [ConnBegin c]) @ ConnCursor c # evs) = Inr ()"
    using a by simp
  have s: "set_isolation_level d dia c level (tr @ [ConnBegin c]) =
     (Inr (), (tr @ [ConnBegin c]) @ [ConnCursor c,
        CursorExecute k (''SET SESSION TRANSACTION ISOLATION LEVEL '' @
                         py_replace CHR ''_'' CHR '' '' level),
        CursorExecute k ''COMMIT'', CursorClose k])"
    using a by (intro set_isolation_level_issued u) simp_all
  show "Transaction_begin d (transaction d dia c kwargs) tr =
        (Inr (), tr @ [ConnBegin c, ConnCursor c,
           CursorExecute k (''SET SESSION TRANSACTION ISOLATION LEVEL '' @
                            py_replace CHR ''_'' CHR '' '' level),
           CursorExecute k ''COMMIT'', CursorClose k])"
    using a b s by (simp add: Transaction_begin_def then_io_call transaction_def)
qed

theorem Transaction_begin_order_witness:
  "unit_reply demo_env ([] @ [ConnBegin 1]) = Inr () \<and>
   Transaction_begin demo_env demo_transaction [] = (Inr (), [ConnBegin 1]) \<and>
   then_io (Transaction_begin demo_env demo_transaction)
       (\<lambda>u. call_io (unit_reply demo_env) (ConnQuery 1 ''SELECT 1'')) [] =
     (Inr (), [ConnBegin 1, ConnQuery 1 ''SELECT 1'']) \<and>
   Transaction_begin demo_env
       (transaction demo_env demo_dialect 1 (Map.empty(''isolation'' \<mapsto> ''READ_COMMITTED''))) [] =
     (Inr (), [ConnBegin 1, ConnCursor 1,
        CursorExecute 7 ''SET SESSION TRANSACTION ISOLATION LEVEL READ COMMITTED'',
        CursorExecute 7 ''COMMIT'', CursorClose 7])"
proof -
  let ?kw = "Map.empty(''isolation'' \<mapsto> ''READ_COMMITTED'')"
  note t = Transaction_begin_order [where d = demo_env and self = demo_transaction
      and tr = "[]" and kwargs = ?kw and dia = demo_dialect and c = 1]
  have u: "unit_reply demo_env ([] @ [ConnBegin (tx_conn demo_transaction)]) = Inr ()"
    by (simp add: demo_env_def)
  have n: "tx_set_isolation demo_transaction = None"
    by (simp add: demo_transaction_def)
  from t u n have 1: "Transaction_begin demo_env demo_transaction [] =
      (Inr (), [] @ [ConnBegin (tx_conn demo_transaction)])"
    by blast
  from t 1 have "then_io (Transaction_begin demo_env demo_transaction)
       (\<lambda>u. call_io (unit_reply demo_env) (ConnQuery 1 ''SELECT 1'')) [] =
     (unit_reply demo_env (([] @ [ConnBegin (tx_conn demo_transaction)]) @ [ConnQuery 1 ''SELECT 1'']),
      ([] @ [ConnBegin (tx_conn demo_transaction)]) @ [ConnQuery 1 ''SELECT 1''])"
    by blast
  then have 2: "then_io (Transaction_begin demo_env demo_transaction)
       (\<lambda>u. call_io (unit_reply demo_env) (ConnQuery 1 ''SELECT 1'')) [] =
     (Inr (), [ConnBegin 1, ConnQuery 1 ''SELECT 1''])"
    by (simp add: demo_env_def demo_transaction_def)
  have h: "?kw ''isolation'' = Some ''READ_COMMITTED'' \<and>
      py_replace CHR ''_'' CHR '' '' ''READ_COMMITTED'' \<in> set (isolation_lookup demo_dialect) \<and>
      cursor_reply demo_env ([] @ [ConnBegin 1, ConnCursor 1]) = Inr 7 \<and>
      (\<forall>evs. unit_reply demo_env ([] @ ConnBegin 1 # evs) = Inr ())"
    by (simp add: demo_env_def demo_dialect_def py_replace_def)
  from t h have "Transaction_begin demo_env (transaction demo_env demo_dialect 1 ?kw) [] =
        (Inr (), [] @ [ConnBegin 1, ConnCursor 1,
           CursorExecute 7 (''SET SESSION TRANSACTION ISOLATION LEVEL '' @
                            py_replace CHR ''_'' CHR '' '' ''READ_COMMITTED''),
           CursorExecute 7 ''COMMIT'', CursorClose 7])"
    by blast
  then have 3: "Transaction_begin demo_env (transaction demo_env demo_dialect 1 ?kw) [] =
     (Inr (), [ConnBegin 1, ConnCursor 1,
        CursorExecute 7 ''SET SESSION TRANSACTION ISOLATION LEVEL READ COMMITTED'',
        CursorExecute 7 ''COMMIT'', CursorClose 7])"
    by (simp add: py_replace_def)
  from u 1 2 3 show ?thesis
    by (simp add: demo_transaction_def)
qed

subsection \<open>Acquiring from the pool\<close>

text \<open>
  C1. Let the driver's pool hand out a connection and the configured hook raise \<open>e\<close> on
  it. Then \<^verbatim>\<open>acquire\<close> calls \<^verbatim>\<open>release\<close> for that connection, as the next call after what the
  hook did, and raises: the caller gets no connection. What it raises is \<open>e\<close> itself when
  the release call returns (and the exception of the release call when that raises).
\<close>

theorem Pool_acquire_hook_failure:
  assumes "conn_init self = Some init"
    and "pool_wait d timeout (tr @ [PoolAcquire]) = Some (Inr conn)"
    and "init conn (tr @ [PoolAcquire]) = (Inl e, tr2)"
  shows "\<exists>e'. Pool_acquire d self timeout tr = Some (Inl e', tr2 @ [PoolRelease conn]) \<and>
    (unit_reply d (tr2 @ [PoolRelease conn]) = Inr () \<longrightarrow> e' = e) \<and>
    (\<forall>e''. unit_reply d (tr2 @ [PoolRelease conn]) = Inl e'' \<longrightarrow> e' = e'')"
proof (cases "unit_reply d (tr2 @ [PoolRelease conn])")
  case (Inl e'')
  then have "Pool_acquire d self timeout tr = Some (Inl e'', tr2 @ [PoolRelease conn])"
    using assms by (simp add: Pool_acquire_def Pool_release_def call_io_def)
  with Inl show ?thesis by simp
next
  case (Inr u)
  then have "Pool_acquire d self timeout tr = Some (Inl e, tr2 @ [PoolRelease conn])"
    using assms by (simp add: Pool_acquire_def Pool_release_def call_io_def)
  with Inr show ?thesis by simp
qed

theorem Pool_acquire_hook_failure_witness:
  "conn_init \<lparr>conn_init = on_connect demo_env demo_dialect\<rparr> =
     Some (\<lambda>conn. set_isolation_level demo_env demo_dialect conn ''BOGUS_LEVEL'') \<and>
   pool_wait demo_env None ([] @ [PoolAcquire]) = Some (Inr 1) \<and>
   set_isolation_level demo_env demo_dialect 1 ''BOGUS_LEVEL'' ([] @ [PoolAcquire]) =
     (Inl (ArgumentError (invalid_level_message demo_dialect ''BOGUS LEVEL'')), [PoolAcquire]) \<and>
   unit_reply demo_env ([PoolAcquire] @ [PoolRelease 1]) = Inr () \<and>
   Pool_acquire demo_env \<lparr>conn_init = on_connect demo_env demo_dialect\<rparr> None [] =
     Some (Inl (ArgumentError (invalid_level_message demo_dialect ''BOGUS LEVEL'')),
           [PoolAcquire, PoolRelease 1])"
proof -
  let ?init = "\<lambda>conn. set_isolation_level demo_env demo_dialect conn ''BOGUS_LEVEL''"
  let ?self = "\<lparr>conn_init = on_connect demo_env demo_dialect\<rparr>"
  let ?e = "ArgumentError (invalid_level_message demo_dialect ''BOGUS LEVEL'')"
  have a: "conn_init ?self = Some ?init"
    by (simp add: on_connect_def demo_dialect_def)
  have b: "pool_wait demo_env None ([] @ [PoolAcquire]) = Some (Inr 1)"
    by (simp add: pool_wait_def demo_env_def)
  have c: "?init 1 ([] @ [PoolAcquire]) = (Inl ?e, [PoolAcquire])"
    by (simp add: set_isolation_level_def priv_set_isolation_level_def raise_io_def
        py_replace_def demo_dialect_def)
  have r: "unit_reply demo_env ([PoolAcquire] @ [PoolRelease 1]) = Inr ()"
    by (simp add: demo_env_def)
  from Pool_acquire_hook_failure [OF a b c] r
  have "Pool_acquire demo_env ?self None [] = Some (Inl ?e, [PoolAcquire] @ [PoolRelease 1])"
    by auto
  with a b c r show ?thesis by simp
qed

lemma wait_for_TimeoutError:
  fixes t :: "'t::{zero,linorder}"
  assumes "wait_for fut t = Inl TimeoutError"
    and "\<forall>dl. fut \<noteq> Some (dl, Inl TimeoutError)"
  shows "t \<le> 0 \<or> (\<forall>dl r. fut = Some (dl, r) \<longrightarrow> t < dl)"
  using assms by (auto simp: wait_for_def split: if_splits option.splits)

text \<open>
  C8. Without a timeout \<^verbatim>\<open>acquire\<close> waits for the driver's pool as long as it takes: if
  the pool never answers, \<^verbatim>\<open>acquire\<close> never returns, and if it answers, the outcome is the
  same whatever the time the answer took. When neither the pool, the hook nor the
  release call raises \<^verbatim>\<open>TimeoutError\<close> itself, \<^verbatim>\<open>acquire\<close> raises it only with a bounded
  timeout \<open>t\<close>, and then \<open>t\<close> was not positive or the pool needed more than \<open>t\<close> (or never
  answered).
\<close>

theorem Pool_acquire_timeout:
  fixes d :: "('t::{zero,linorder}) env"
  shows
  "(pool_acquire_reply d (tr @ [PoolAcquire]) = None \<longrightarrow> Pool_acquire d self None tr = None) \<and>
   (\<forall>dl r. pool_acquire_reply d (tr @ [PoolAcquire]) = Some (dl, r) \<longrightarrow>
      Pool_acquire d self None tr \<noteq> None) \<and>
   (\<forall>g. Pool_acquire
           (d\<lparr>pool_acquire_reply :=
                 \<lambda>x. map_option (\<lambda>(dl, r). (g dl, r)) (pool_acquire_reply d x)\<rparr>) self None tr =
         Pool_acquire d self None tr) \<and>
   ((\<forall>dl. pool_acquire_reply d (tr @ [PoolAcquire]) \<noteq> Some (dl, Inl TimeoutError)) \<and>
    (\<forall>init c tr1 tr2. conn_init self = Some init \<longrightarrow> init c tr1 \<noteq> (Inl TimeoutError, tr2)) \<and>
    (\<forall>tr2. unit_reply d tr2 \<noteq> Inl TimeoutError) \<and>
    Pool_acquire d self timeout tr = Some (Inl TimeoutError, tr') \<longrightarrow>
      (\<exists>t. timeout = Some t \<and>
         (t \<le> 0 \<or> (\<forall>dl r. pool_acquire_reply d (tr @ [PoolAcquire]) = Some (dl, r) \<longrightarrow> t < dl))))"
proof (intro conjI allI impI)
  assume "pool_acquire_reply d (tr @ [PoolAcquire]) = None"
  then show "Pool_acquire d self None tr = None"
    by (simp add: Pool_acquire_def pool_wait_def)
next
  fix dl r
  assume "pool_acquire_reply d (tr @ [PoolAcquire]) = Some (dl, r)"
  then show "Pool_acquire d self None tr \<noteq> None"
    by (simp add: Pool_acquire_def pool_wait_def Let_def split: sum.splits option.splits prod.splits)
next
  fix g :: "'t \<Rightarrow> 't"
  let ?d = "d\<lparr>pool_acquire_reply :=
                 \<lambda>x. map_option (\<lambda>(dl, r). (g dl, r)) (pool_acquire_reply d x)\<rparr>"
  have pw: "pool_wait ?d None (tr @ [PoolAcquire]) = pool_wait d None (tr @ [PoolAcquire])"
    by (cases "pool_acquire_reply d (tr @ [PoolAcquire])") (auto simp: pool_wait_def)
  have pr: "Pool_release ?d self = Pool_release d self"
    by (simp add: Pool_release_def fun_eq_iff)
  show "Pool_acquire ?d self None tr = Pool_acquire d self None tr"
    by (simp only: Pool_acquire_def Let_def pw pr)
next
  assume a: "(\<forall>dl. pool_acquire_reply d (tr @ [PoolAcquire]) \<noteq> Some (dl, Inl TimeoutError)) \<and>
    (\<forall>init c tr1 tr2. conn_init self = Some init \<longrightarrow> init c tr1 \<noteq> (Inl TimeoutError, tr2)) \<and>
    (\<forall>tr2. unit_reply d tr2 \<noteq> Inl TimeoutError) \<and>
    Pool_acquire d self timeout tr = Some (Inl TimeoutError, tr')"
  let ?fut = "pool_acquire_reply d (tr @ [PoolAcquire])"
  from a have w: "pool_wait d timeout (tr @ [PoolAcquire]) = Some (Inl TimeoutError)"
    by (auto simp: Pool_acquire_def Pool_release_def call_io_def Let_def
        split: sum.splits option.splits prod.splits)
  show "\<exists>t. timeout = Some t \<and> (t \<le> 0 \<or> (\<forall>dl r. ?fut = Some (dl, r) \<longrightarrow> t < dl))"
  proof (cases timeout)
    case None
    with w a show ?thesis
      by (cases ?fut) (auto simp: pool_wait_def)
  next
    case (Some t)
    with w have "wait_for ?fut t = Inl TimeoutError"
      by (simp add: pool_wait_def)
    from wait_for_TimeoutError[OF this] a Some show ?thesis
      by blast
  qed
qed

theorem Pool_acquire_timeout_witness:
  "pool_acquire_reply (demo_env\<lparr>pool_acquire_reply := \<lambda>tr. None\<rparr>) ([] @ [PoolAcquire]) = None \<and>
   Pool_acquire (demo_env\<lparr>pool_acquire_reply := \<lambda>tr. None\<rparr>) \<lparr>conn_init = None\<rparr> None [] = None \<and>
   pool_acquire_reply demo_env ([] @ [PoolAcquire]) = Some (2, Inr 1) \<and>
   Pool_acquire demo_env \<lparr>conn_init = None\<rparr> None [] \<noteq> None \<and>
   Pool_acquire demo_env \<lparr>conn_init = None\<rparr> (Some 1) [] = Some (Inl TimeoutError, [PoolAcquire]) \<and>
   (\<exists>t. Some (1::int) = Some t \<and> (t \<le> 0 \<or> t < 2))"
proof -
  let ?never = "demo_env\<lparr>pool_acquire_reply := \<lambda>tr. None\<rparr>"
  let ?self = "\<lparr>conn_init = None\<rparr> :: int pool"
  have a: "pool_acquire_reply ?never ([] @ [PoolAcquire]) = None"
    by simp
  from a Pool_acquire_timeout [where d = ?never and tr = "[]" and self = ?self]
  have 1: "Pool_acquire ?never ?self None [] = None"
    by blast
  have b: "pool_acquire_reply demo_env ([] @ [PoolAcquire]) = Some (2, Inr 1)"
    by (simp add: demo_env_def)
  note t = Pool_acquire_timeout [where d = demo_env and tr = "[]" and self = ?self
      and timeout = "Some 1" and tr' = "[PoolAcquire]"]
  from b t have 2: "Pool_acquire demo_env ?self None [] \<noteq> None"
    by blast
  have c: "Pool_acquire demo_env ?self (Some 1) [] = Some (Inl TimeoutError, [PoolAcquire])"
    by (simp add: Pool_acquire_def pool_wait_def wait_for_def demo_env_def)
  have h: "(\<forall>dl. pool_acquire_reply demo_env ([] @ [PoolAcquire]) \<noteq> Some (dl, Inl TimeoutError)) \<and>
    (\<forall>init c tr1 tr2. conn_init ?self = Some init \<longrightarrow> init c tr1 \<noteq> (Inl TimeoutError, tr2)) \<and>
    (\<forall>tr2. unit_reply demo_env tr2 \<noteq> Inl TimeoutError)"
    by (simp add: demo_env_def)
  from t h c have "\<exists>t. Some (1::int) = Some t \<and>
      (t \<le> 0 \<or> (\<forall>dl r. pool_acquire_reply demo_env ([] @ [PoolAcquire]) = Some (dl, r) \<longrightarrow> t < dl))"
    by blast
  with b have 3: "\<exists>t. Some (1::int) = Some t \<and> (t \<le> 0 \<or> t < 2)"
    by auto
  from a 1 b 2 c 3 show ?thesis
    by blast
qed

subsection \<open>The timeout of a prepare\<close>







subsection \<open>The cached server version\<close>

lemma within_return: "version_queries_within n (return_io x)"
  by (simp add: version_queries_within_def return_io_def)

lemma within_raise: "version_queries_within n (raise_io e)"
  by (simp add: version_queries_within_def raise_io_def)

lemma within_lift: "version_queries_within n (lift_io r)"
  by (simp add: version_queries_within_def lift_io_def)

lemma within_call:
  "\<not> is_version_query ev \<Longrightarrow> version_queries_within n (call_io reply ev)"
  by (simp add: version_queries_within_def call_io_def)

lemma within_call_query: "version_queries_within 1 (call_io reply ev)"
  by (simp add: version_queries_within_def call_io_def)

lemma within_then:
  assumes m: "version_queries_within n m"
    and f: "\<And>x. version_queries_within k (f x)"
  shows "version_queries_within (n + k) (then_io m f)"
  unfolding version_queries_within_def
proof
  fix tr
  obtain evs where evs: "snd (m tr) = tr @ evs" "length (filter is_version_query evs) \<le> n"
    using m unfolding version_queries_within_def by blast
  show "\<exists>evs. snd (then_io m f tr) = tr @ evs \<and> length (filter is_version_query evs) \<le> n + k"
  proof (cases "fst (m tr)")
    case (Inl e)
    then have "then_io m f tr = (Inl e, tr @ evs)"
      using evs(1) by (cases "m tr") (simp add: then_io_def)
    with evs(2) show ?thesis by auto
  next
    case (Inr x)
    then have t: "then_io m f tr = f x (tr @ evs)"
      using evs(1) by (cases "m tr") (simp add: then_io_def)
    obtain evs' where evs': "snd (f x (tr @ evs)) = (tr @ evs) @ evs'"
        "length (filter is_version_query evs') \<le> k"
      using f[of x] unfolding version_queries_within_def by blast
    have "snd (then_io m f tr) = tr @ (evs @ evs')"
      using t evs'(1) by simp
    moreover have "length (filter is_version_query (evs @ evs')) \<le> n + k"
      using evs(2) evs'(2) by simp
    ultimately show ?thesis by blast
  qed
qed

lemma within_then0:
  "version_queries_within 0 m \<Longrightarrow> (\<And>x. version_queries_within n (f x)) \<Longrightarrow>
   version_queries_within n (then_io m f)"
  using within_then[of 0 m n f] by simp

lemma within_then1:
  "version_queries_within 1 m \<Longrightarrow> (\<And>x. version_queries_within 0 (f x)) \<Longrightarrow>
   version_queries_within 1 (then_io m f)"
  using within_then[of 1 m 0 f] by simp

lemma read_isolation_level_no_version_query:
  "version_queries_within 0 (read_isolation_level d self connection)"
  unfolding read_isolation_level_def
  by (intro within_then0 within_call within_lift within_raise)
     (auto simp: is_version_query_def intro!: within_then0 within_call within_lift within_raise
        split: option.splits)

lemma get_server_version_info_one_version_query:
  "version_queries_within 1 (get_server_version_info d self connection)"
  unfolding get_server_version_info_def
  apply (rule within_then0)
   apply (rule within_call, simp add: is_version_query_def)
  apply (rule within_then1)
   apply (rule within_call_query)
  apply (intro within_then0 within_call within_lift)
   apply (simp_all add: is_version_query_def)
  done

lemma get_isolation_level_cached:
  assumes "server_version_info self = Some v"
  shows "\<exists>r evs. get_isolation_level d self connection tr = ((r, self), tr @ evs) \<and>
    filter is_version_query evs = []"
proof -
  obtain evs where evs: "snd (read_isolation_level d self connection tr) = tr @ evs"
      "length (filter is_version_query evs) \<le> 0"
    using read_isolation_level_no_version_query[of d self connection]
    unfolding version_queries_within_def by blast
  have "get_isolation_level d self connection tr =
      ((fst (read_isolation_level d self connection tr), self), tr @ evs)"
    using assms evs(1) by (auto simp: get_isolation_level_def split: prod.splits)
  with evs(2) show ?thesis by simp
qed

lemma get_isolation_level_at_most_one:
  "\<exists>evs. snd (get_isolation_level d self connection tr) = tr @ evs \<and>
     length (filter is_version_query evs) \<le> 1"
proof (cases "server_version_info self")
  case (Some v)
  from get_isolation_level_cached[OF this, of d connection tr] show ?thesis
    by auto
next
  case None
  obtain evs where evs: "snd (get_server_version_info d self connection tr) = tr @ evs"
      "length (filter is_version_query evs) \<le> 1"
    using get_server_version_info_one_version_query[of d self connection]
    unfolding version_queries_within_def by blast
  show ?thesis
  proof (cases "fst (get_server_version_info d self connection tr)")
    case (Inl e)
    then have "get_isolation_level d self connection tr = ((Inl e, self), tr @ evs)"
      using None evs(1)
      by (cases "get_server_version_info d self connection tr") (simp add: get_isolation_level_def)
    with evs(2) show ?thesis by simp
  next
    case (Inr v)
    let ?self1 = "self\<lparr>server_version_info := Some v\<rparr>"
    obtain evs' where evs': "snd (read_isolation_level d ?self1 connection (tr @ evs)) =
        (tr @ evs) @ evs'" "length (filter is_version_query evs') \<le> 0"
      using read_isolation_level_no_version_query[of d ?self1 connection]
      unfolding version_queries_within_def by blast
    have "snd (get_isolation_level d self connection tr) = tr @ (evs @ evs')"
      using None Inr evs(1) evs'(1)
      by (cases "get_server_version_info d self connection tr")
         (auto simp: get_isolation_level_def Let_def split: prod.splits)
    moreover have "length (filter is_version_query (evs @ evs')) \<le> 1"
      using evs(2) evs'(2) by simp
    ultimately show ?thesis by blast
  qed
qed

lemma get_isolation_level_populates:
  assumes "get_isolation_level d self connection tr = ((Inr r, self1), tr1)"
  shows "server_version_info self1 \<noteq> None"
proof (cases "server_version_info self")
  case (Some v)
  with assms show ?thesis
    by (auto simp: get_isolation_level_def split: prod.splits)
next
  case None
  with assms show ?thesis
    by (auto simp: get_isolation_level_def Let_def split: prod.splits sum.splits)
qed

lemma get_isolation_levels_cached:
  assumes "server_version_info self = Some v"
  shows "\<exists>evs. get_isolation_levels d self cs tr = (self, tr @ evs) \<and>
    filter is_version_query evs = []"
proof (induction cs arbitrary: tr)
  case Nil
  show ?case by simp
next
  case (Cons c cs)
  obtain r evs where 1: "get_isolation_level d self c tr = ((r, self), tr @ evs)"
      "filter is_version_query evs = []"
    using get_isolation_level_cached[OF assms] by blast
  obtain evs' where 2: "get_isolation_levels d self cs (tr @ evs) = (self, (tr @ evs) @ evs')"
      "filter is_version_query evs' = []"
    using Cons.IH by blast
  have "get_isolation_levels d self (c # cs) tr = (self, tr @ (evs @ evs'))"
    using 1(1) 2(1) by simp
  moreover have "filter is_version_query (evs @ evs') = []"
    using 1(2) 2(2) by simp
  ultimately show ?case by blast
qed

text \<open>
  C7. The server version is cached in the dialect object. When it is there, a call of
  \<^verbatim>\<open>get_isolation_level\<close>, on any connection, leaves it as it is and issues no version
  query, and so does any number of calls in a row. Any one call issues at most one
  version query. A call that returns has the version cached afterwards, so no later call,
  on the same connection or another, issues the version query again.
\<close>

theorem server_version_queried_once:
  "(\<forall>v. server_version_info self = Some v \<longrightarrow>
      (\<exists>r evs. get_isolation_level d self connection tr = ((r, self), tr @ evs) \<and>
         filter is_version_query evs = []) \<and>
      (\<exists>evs. get_isolation_levels d self cs tr = (self, tr @ evs) \<and>
         filter is_version_query evs = [])) \<and>
   (\<exists>evs. snd (get_isolation_level d self connection tr) = tr @ evs \<and>
      length (filter is_version_query evs) \<le> 1) \<and>
   (\<forall>r self1 tr1. get_isolation_level d self connection tr = ((Inr r, self1), tr1) \<longrightarrow>
      server_version_info self1 \<noteq> None \<and>
      (\<exists>evs. get_isolation_levels d self1 cs tr1 = (self1, tr1 @ evs) \<and>
         filter is_version_query evs = []))"
proof (intro conjI allI impI)
  fix v
  assume v: "server_version_info self = Some v"
  show "\<exists>r evs. get_isolation_level d self connection tr = ((r, self), tr @ evs) \<and>
         filter is_version_query evs = []"
    by (rule get_isolation_level_cached[OF v])
  show "\<exists>evs. get_isolation_levels d self cs tr = (self, tr @ evs) \<and>
         filter is_version_query evs = []"
    by (rule get_isolation_levels_cached[OF v])
next
  show "\<exists>evs. snd (get_isolation_level d self connection tr) = tr @ evs \<and>
      length (filter is_version_query evs) \<le> 1"
    by (rule get_isolation_level_at_most_one)
next
  fix r self1 tr1
  assume a: "get_isolation_level d self connection tr = ((Inr r, self1), tr1)"
  show "server_version_info self1 \<noteq> None"
    by (rule get_isolation_level_populates[OF a])
  then obtain v where "server_version_info self1 = Some v"
    by blast
  then show "\<exists>evs. get_isolation_levels d self1 cs tr1 = (self1, tr1 @ evs) \<and>
         filter is_version_query evs = []"
    by (rule get_isolation_levels_cached)
qed

lemma get_isolation_level_demo:
  "get_isolation_level demo_env demo_dialect 1 [] =
     ((Inr ''8.0.31'', demo_dialect\<lparr>server_version_info := Some [VInt 8, VInt 0, VInt 31]\<rparr>),
      [ConnCursor 1, CursorExecute 7 ''SELECT VERSION()'', CursorFetchone 7, CursorClose 7,
       ConnCursor 1, CursorExecute 7 ''SELECT @@transaction_isolation'', CursorFetchone 7,
       CursorClose 7])"
proof -
  have v: "get_server_version_info demo_env demo_dialect 1 [] =
      (Inr [VInt 8, VInt 0, VInt 31],
       [ConnCursor 1, CursorExecute 7 ''SELECT VERSION()'', CursorFetchone 7, CursorClose 7])"
    by (simp add: get_server_version_info_def then_io_call then_io_lift lift_io_def
        row_first_def py_first_def decode_if_bytes_def demo_env_def parse_example_mysql)
  let ?self1 = "demo_dialect\<lparr>server_version_info := Some [VInt 8, VInt 0, VInt 31]\<rparr>"
  let ?tr1 = "[ConnCursor 1, CursorExecute 7 ''SELECT VERSION()'', CursorFetchone 7,
      CursorClose 7] :: int event list"
  have r: "read_isolation_level demo_env ?self1 1 ?tr1 =
      (Inr ''8.0.31'', ?tr1 @ [ConnCursor 1, CursorExecute 7 ''SELECT @@transaction_isolation'',
         CursorFetchone 7, CursorClose 7])"
    by (simp add: read_isolation_level_def then_io_call then_io_lift lift_io_def
        py_first_def decode_if_bytes_def demo_env_def demo_dialect_def py_replace_def)
  have n: "server_version_info demo_dialect = None"
    by (simp add: demo_dialect_def)
  show ?thesis
    using v r n by (simp add: get_isolation_level_def)
qed

theorem server_version_queried_once_witness:
  "get_isolation_level demo_env demo_dialect 1 [] =
     ((Inr ''8.0.31'', demo_dialect\<lparr>server_version_info := Some [VInt 8, VInt 0, VInt 31]\<rparr>),
      [ConnCursor 1, CursorExecute 7 ''SELECT VERSION()'', CursorFetchone 7, CursorClose 7,
       ConnCursor 1, CursorExecute 7 ''SELECT @@transaction_isolation'', CursorFetchone 7,
       CursorClose 7]) \<and>
   server_version_info (demo_dialect\<lparr>server_version_info := Some [VInt 8, VInt 0, VInt 31]\<rparr>)
     \<noteq> None \<and>
   (\<exists>evs. get_isolation_levels demo_env
             (demo_dialect\<lparr>server_version_info := Some [VInt 8, VInt 0, VInt 31]\<rparr>) [1, 2]
             [ConnCursor 1, CursorExecute 7 ''SELECT VERSION()'', CursorFetchone 7, CursorClose 7,
              ConnCursor 1, CursorExecute 7 ''SELECT @@transaction_isolation'', CursorFetchone 7,
              CursorClose 7] =
           (demo_dialect\<lparr>server_version_info := Some [VInt 8, VInt 0, VInt 31]\<rparr>,
            [ConnCursor 1, CursorExecute 7 ''SELECT VERSION()'', CursorFetchone 7, CursorClose 7,
             ConnCursor 1, CursorExecute 7 ''SELECT @@transaction_isolation'', CursorFetchone 7,
             CursorClose 7] @ evs) \<and>
      filter is_version_query evs = [])"
  using server_version_queried_once [where d = demo_env and self = demo_dialect
      and connection = 1 and tr = "[]" and cs = "[1, 2]"] get_isolation_level_demo
  by blast

subsection \<open>Direct execution\<close>

text \<open>
  \<^verbatim>\<open>async_execute\<close> on the same budget: the remainder is computed, and the query is sent
  with no timeout at all.
\<close>

lemma async_execute_demo:
  "async_execute demo_env demo_cursor ''SELECT 1'' (Some 1) None [] =
     (Inr (PList [], demo_cursor\<lparr>cursor_description := PNone, status := PInt 0\<rparr>),
      [Monotonic, Acquire (Some 1), Monotonic, ConnQuery 1 ''SELECT 1''])"
  by (simp add: async_execute_def acquire_timed_def then_io_def monotonic_def call_io_def
      return_io_def demo_env_def)

lemma async_execute_escapes_args:
  "async_execute demo_env demo_cursor ''SELECT %s'' None (Some (PInt 3)) [] =
     (Inl ValueError, [Acquire None])"
  by (simp add: async_execute_def acquire_timed_def then_io_def call_io_def return_io_def
      lift_io_def escape_args_def demo_env_def)

end
